theory Spec2Isabelle
  imports Complex_Main
begin

section \<open>Values, exceptions and the outside world\<close>

text \<open>
  The repository is three Python scripts: \<^verbatim>\<open>scripts/generate_data.py\<close> writes five CSV
  files of synthetic records, \<^verbatim>\<open>scripts/ingest.py\<close> loads them into a warehouse and keeps
  a pipeline log, \<^verbatim>\<open>app/dashboard.py\<close> queries the warehouse. Everything they touch outside
  the interpreter is a field of one record, \<open>world\<close>: the random generator, Faker, the
  clock, the file system, the warehouse and standard output.

  Conventions of the embedding.
  \<^item> A Python float is a \<open>real\<close>; \<open>round(x, 1)\<close> rounds the real to the nearest tenth,
    a tie to the even neighbour.
  \<^item> A date text \<^verbatim>\<open>YYYY-MM-DD\<close> is the number of the day it denotes, a timestamp text
    \<^verbatim>\<open>YYYY-MM-DD HH:MM:SS\<close> the number of the second it denotes; \<open>strftime\<close> followed by
    \<open>strptime\<close> is the identity on them.
  \<^item> A CSV file is the list of its rows, the header row first; a row is a list of cells,
    \<open>None\<close> for an empty field (pandas' NaN).
  \<^item> Every call that reads the random generator, Faker or the clock, and every call of the
    warehouse driver, takes the next entry of the corresponding oracle and advances
    \<open>tick\<close>. A driver call raises the exception \<open>faults\<close> holds for it, if any: the
    warehouse can fail at any call, for any reason.
  \<^item> The warehouse is the rows of its tables. The three statements the loader builds
    (\<open>DELETE FROM t\<close>, \<open>INSERT INTO t (cols) VALUES (...)\<close> with its rows,
    \<open>SELECT COUNT( * ) FROM t\<close>) are constructors of \<open>stmt\<close> with their SQL meaning; the
    statements read from the SQL files, which are not part of the scripts, act on the tables
    as \<open>sql_effect\<close> says, and a dashboard query answers what \<open>query_result\<close> says.
  \<^item> Which credentials open the connection is not modelled: connecting is one driver call.
    Closing a cursor or the connection does nothing.
\<close>

datatype exn =
    IndexError
  | ValueError
  | FileNotFoundError string
  | EmptyDataError
  | AttributeError
  | DriverError string
  | StopException

datatype cell =
    Str string
  | Num int
  | Float real
  | Date int
  | Stamp int
  | Iso real

type_synonym row = "cell option list"

text \<open>The statements sent to the warehouse.\<close>

datatype stmt =
    Sql string
  | DeleteFrom string
  | InsertInto string row "row list"
  | SelectCount string

text \<open>What the dashboard puts on the page.\<close>

datatype element =
    Title string
  | Markdown string
  | Header string
  | Success string
  | ErrorBox string
  | InfoBox string
  | ConnectError exn
  | QueryError exn
  | Divider
  | Caption string

text \<open>The lines the scripts print.\<close>

datatype msg =
    Info string
  | Summary string nat
  | Logged string string int int
  | Connected
  | ConnectFailed exn
  | SetupFailed exn
  | FileNotFound string
  | Loaded string nat int
  | IngestionFailed exn
  | Created string
  | QuerySkipped exn
  | AnalyticsFailed exn
  | TableCount bool string int
  | TotalRows int
  | VerificationFailed exn
  | PipelineFailed exn

record world =
  rand :: "nat \<Rightarrow> real"
  words :: "nat \<Rightarrow> string"
  clock :: "nat \<Rightarrow> real"
  faults :: "nat \<Rightarrow> exn option"
  sql_effect :: "string \<Rightarrow> (string \<Rightarrow> row list) \<Rightarrow> (string \<Rightarrow> row list)"
  tick :: nat
  csv_files :: "string \<Rightarrow> row list option"
  sql_files :: "string \<Rightarrow> string option"
  tables :: "string \<Rightarrow> row list"
  query_result :: "string \<Rightarrow> (string \<Rightarrow> row list) \<Rightarrow> row list"
  stdout :: "msg list"
  ui :: "element list"

text \<open>
  A computation takes the world and returns either the exception it raised or its value,
  together with the world it left behind.
\<close>

type_synonym 'a io = "world \<Rightarrow> (exn + 'a) \<times> world"

definition return_io :: "'a \<Rightarrow> 'a io" where
  "return_io x w = (Inr x, w)"

definition raise_io :: "exn \<Rightarrow> 'a io" where
  "raise_io e w = (Inl e, w)"

definition bind_io :: "'a io \<Rightarrow> ('a \<Rightarrow> 'b io) \<Rightarrow> 'b io" where
  "bind_io m f w = (case m w of (Inl e, w') \<Rightarrow> (Inl e, w') | (Inr x, w') \<Rightarrow> f x w')"

definition then_io :: "unit io \<Rightarrow> 'b io \<Rightarrow> 'b io" where
  "then_io m k = bind_io m (\<lambda>_. k)"

text \<open>\<open>for x in xs: out.append(f(x))\<close>\<close>

fun mapM_io :: "('a \<Rightarrow> 'b io) \<Rightarrow> 'a list \<Rightarrow> 'b list io" where
  "mapM_io f [] = return_io []"
| "mapM_io f (x # xs) =
     bind_io (f x) (\<lambda>y. bind_io (mapM_io f xs) (\<lambda>ys. return_io (y # ys)))"

text \<open>\<open>for x in xs: f(x)\<close>\<close>

fun iter_io :: "('a \<Rightarrow> unit io) \<Rightarrow> 'a list \<Rightarrow> unit io" where
  "iter_io f [] = return_io ()"
| "iter_io f (x # xs) = then_io (f x) (iter_io f xs)"

text \<open>\<open>try: m except Exception as e: h(e)\<close>\<close>

definition catch_io :: "'a io \<Rightarrow> (exn \<Rightarrow> 'a io) \<Rightarrow> 'a io" where
  "catch_io m h w = (case m w of (Inl e, w') \<Rightarrow> h e w' | (Inr x, w') \<Rightarrow> (Inr x, w'))"

definition print :: "msg \<Rightarrow> unit io" where
  "print m w = (Inr (), w\<lparr>stdout := stdout w @ [m]\<rparr>)"

subsection \<open>The \<open>random\<close> module, Faker and the clock\<close>

definition random_random :: "real io" where
  "random_random w = (Inr (frac (rand w (tick w))), w\<lparr>tick := Suc (tick w)\<rparr>)"

definition uniform :: "real \<Rightarrow> real \<Rightarrow> real io" where
  "uniform a b = bind_io random_random (\<lambda>u. return_io (a + (b - a) * u))"

definition randint :: "int \<Rightarrow> int \<Rightarrow> int io" where
  "randint a b =
     (if b < a then raise_io ValueError
      else bind_io random_random (\<lambda>u. return_io (a + \<lfloor>u * of_int (b - a + 1)\<rfloor>)))"

definition choice :: "'a list \<Rightarrow> 'a io" where
  "choice xs =
     (if xs = [] then raise_io IndexError
      else bind_io random_random (\<lambda>u. return_io (xs ! nat \<lfloor>u * of_nat (length xs)\<rfloor>)))"

fun sample_from :: "'a list \<Rightarrow> nat \<Rightarrow> 'a list io" where
  "sample_from xs 0 = return_io []"
| "sample_from xs (Suc k) =
     bind_io (choice [0..<length xs]) (\<lambda>j.
     bind_io (sample_from (take j xs @ drop (Suc j) xs) k) (\<lambda>r.
     return_io (xs ! j # r)))"

definition sample :: "'a list \<Rightarrow> int \<Rightarrow> 'a list io" where
  "sample xs k =
     (if k < 0 \<or> int (length xs) < k then raise_io ValueError else sample_from xs (nat k))"

definition fake :: "string io" where
  "fake w = (Inr (words w (tick w)), w\<lparr>tick := Suc (tick w)\<rparr>)"

definition now :: "real io" where
  "now w = (Inr (clock w (tick w)), w\<lparr>tick := Suc (tick w)\<rparr>)"

text \<open>\<open>(datetime.now() - timedelta(days=r)).strftime('%Y-%m-%d')\<close> and the same with
  \<open>'%Y-%m-%d %H:%M:%S'\<close>.\<close>

definition days_ago :: "real \<Rightarrow> int \<Rightarrow> int" where
  "days_ago t r = \<lfloor>t / 86400\<rfloor> - r"

definition days_ago_seconds :: "real \<Rightarrow> int \<Rightarrow> int" where
  "days_ago_seconds t r = \<lfloor>t\<rfloor> - 86400 * r"

definition round_half_even :: "real \<Rightarrow> int" where
  "round_half_even y =
     (let f = \<lfloor>y\<rfloor>; d = y - of_int f
      in if d < 1 / 2 then f else if 1 / 2 < d then f + 1 else if even f then f else f + 1)"

definition round1 :: "real \<Rightarrow> real" where
  "round1 x = of_int (round_half_even (x * 10)) / 10"

subsection \<open>Text\<close>

fun digits :: "nat \<Rightarrow> string" where
  "digits n =
     (if n < 10 then [''0123456789'' ! n] else digits (n div 10) @ [''0123456789'' ! (n mod 10)])"

declare digits.simps [simp del]

text \<open>\<open>f'{i:0wd}'\<close>\<close>

definition zpad :: "nat \<Rightarrow> nat \<Rightarrow> string" where
  "zpad wd i = replicate (wd - length (digits i)) (CHR ''0'') @ digits i"

definition str_int :: "int \<Rightarrow> string" where
  "str_int i = (if i < 0 then CHR ''-'' # digits (nat (- i)) else digits (nat i))"

definition upper_char :: "char \<Rightarrow> char" where
  "upper_char c =
     (let n = (of_char c :: nat) in if 97 \<le> n \<and> n \<le> 122 then char_of (n - 32) else c)"

definition lower_char :: "char \<Rightarrow> char" where
  "lower_char c =
     (let n = (of_char c :: nat) in if 65 \<le> n \<and> n \<le> 90 then char_of (n + 32) else c)"

definition lower :: "string \<Rightarrow> string" where
  "lower s = map lower_char s"

definition capitalize :: "string \<Rightarrow> string" where
  "capitalize s = (case s of [] \<Rightarrow> [] | c # cs \<Rightarrow> upper_char c # map lower_char cs)"

fun join :: "string \<Rightarrow> string list \<Rightarrow> string" where
  "join sep [] = []"
| "join sep [x] = x"
| "join sep (x # y # ys) = x @ sep @ join sep (y # ys)"

section \<open>The generator: \<^verbatim>\<open>scripts/generate_data.py\<close>\<close>

record threat_actor =
  actor_id :: string
  name :: string
  actor_type :: string
  country_origin :: string
  ttps :: string
  active_since :: int
  sophistication_level :: string

record asset =
  asset_id :: string
  hostname :: string
  ip_address :: string
  asset_type :: string
  criticality :: string
  owner :: string
  location :: string
  os :: string
  last_patched_date :: int

text \<open>The fields \<open>asset_id\<close>, \<open>category\<close> and \<open>severity\<close> occur in several of the
  source's dictionaries; here they carry the record's prefix.\<close>

record vulnerability =
  vuln_id :: string
  cve_id :: string
  vuln_asset_id :: string
  cvss_score :: real
  severity_label :: string
  vuln_category :: string
  description :: string
  discovered_date :: int
  remediated_date :: "int option"
  vuln_status :: string

record incident =
  incident_id :: string
  inc_asset_id :: string
  incident_type :: string
  inc_severity :: string
  detected_at :: int
  resolved_at :: "int option"
  attack_vector :: string
  kill_chain_phase :: string
  threat_actor_id :: string

record control =
  control_id :: string
  framework :: string
  ctl_category :: string
  control_name :: string
  implementation_status :: string
  last_reviewed_date :: int
  compliance_score :: real

definition actor_types :: "string list" where
  "actor_types = [''APT'', ''Criminal Gang'', ''Insider Threat'', ''Hacktivist'']"

definition ttps_pool :: "string list" where
  "ttps_pool =
     [''Spear Phishing'', ''SQL Injection'', ''Privilege Escalation'', ''Data Exfiltration'',
      ''DDoS'', ''Malware Deployment'', ''Social Engineering'', ''Supply Chain Attack'']"

definition asset_types :: "string list" where
  "asset_types =
     [''Server'', ''Endpoint'', ''Network Device'', ''Database'', ''Application'', ''IoT Device'']"

definition os_types :: "string list" where
  "os_types = [''Linux'', ''Windows'', ''macOS'', ''Android'', ''iOS'']"

definition criticality_levels :: "string list" where
  "criticality_levels = [''Low'', ''Medium'', ''High'', ''Critical'']"

definition vuln_categories :: "string list" where
  "vuln_categories =
     [''RCE'', ''SQL Injection'', ''XSS'', ''Authentication'', ''Encryption'', ''Authorization'',
      ''Information Disclosure'']"

definition vuln_statuses :: "string list" where
  "vuln_statuses = [''Open'', ''In Remediation'', ''Remediated'', ''Accepted Risk'']"

definition incident_types :: "string list" where
  "incident_types =
     [''Malware Detection'', ''Unauthorized Access'', ''Data Breach'', ''DDoS Attack'',
      ''Phishing'', ''Insider Threat'']"

definition attack_vectors :: "string list" where
  "attack_vectors =
     [''Network'', ''Email'', ''Physical'', ''Supply Chain'', ''Web Application'',
      ''Social Engineering'']"

definition kill_chain_phases :: "string list" where
  "kill_chain_phases =
     [''Reconnaissance'', ''Weaponization'', ''Delivery'', ''Exploitation'', ''Installation'',
      ''Command & Control'', ''Actions on Objectives'']"

definition frameworks :: "string list" where
  "frameworks = [''NIST CSF'', ''SOC 2'', ''ISO 27001'', ''Zero Trust'']"

definition nist_categories :: "string list" where
  "nist_categories = [''Identify'', ''Protect'', ''Detect'', ''Respond'', ''Recover'']"

definition control_names :: "string list" where
  "control_names =
     [''MFA Implementation'', ''Data Encryption'', ''Access Control Review'',
      ''Network Segmentation'', ''Vulnerability Assessment'', ''Incident Response Plan'',
      ''Security Training'', ''Log Monitoring'', ''Firewall Configuration'',
      ''Backup & Recovery'', ''Patch Management'', ''SIEM Deployment'']"

definition implementation_statuses :: "string list" where
  "implementation_statuses =
     [''Not Started'', ''In Progress'', ''Implemented'', ''Compliant'', ''Non-Compliant'']"

text \<open>The body of each generation loop, in the order in which Python evaluates it.\<close>

definition gen_threat_actor :: "nat \<Rightarrow> threat_actor io" where
  "gen_threat_actor i =
     bind_io fake (\<lambda>w1.
     bind_io fake (\<lambda>w2.
     bind_io (choice actor_types) (\<lambda>ty.
     bind_io fake (\<lambda>cc.
     bind_io (randint 1 3) (\<lambda>k.
     bind_io (sample ttps_pool k) (\<lambda>ts.
     bind_io now (\<lambda>t.
     bind_io (randint 365 3650) (\<lambda>r.
     bind_io (choice [''Low'', ''Medium'', ''High'', ''Very High'']) (\<lambda>lvl.
     return_io
       \<lparr>actor_id = ''TA'' @ zpad 3 i,
        name = capitalize w1 @ '' '' @ capitalize w2,
        actor_type = ty,
        country_origin = cc,
        ttps = join '', '' ts,
        active_since = days_ago t r,
        sophistication_level = lvl\<rparr>)))))))))"

definition gen_asset :: "nat \<Rightarrow> asset io" where
  "gen_asset i =
     bind_io fake (\<lambda>w1.
     bind_io fake (\<lambda>w2.
     bind_io fake (\<lambda>ip.
     bind_io (choice asset_types) (\<lambda>ty.
     bind_io (choice criticality_levels) (\<lambda>cr.
     bind_io fake (\<lambda>ow.
     bind_io fake (\<lambda>city.
     bind_io (choice os_types) (\<lambda>osn.
     bind_io now (\<lambda>t.
     bind_io (randint 0 180) (\<lambda>r.
     return_io
       \<lparr>asset_id = ''AST'' @ zpad 4 i,
        hostname = lower (w1 @ ''-'' @ w2 @ ''-'' @ zpad 3 i),
        ip_address = ip,
        asset_type = ty,
        criticality = cr,
        owner = ow,
        location = city,
        os = osn,
        last_patched_date = days_ago t r\<rparr>))))))))))"

text \<open>The \<open>if\<close>/\<open>elif\<close> chain of the vulnerability loop.\<close>

definition severity_of :: "real \<Rightarrow> string" where
  "severity_of cvss =
     (if cvss \<ge> 9.0 then ''Critical''
      else if cvss \<ge> 7.0 then ''High''
      else if cvss \<ge> 4.0 then ''Medium''
      else ''Low'')"

text \<open>\<open>X if random.random() > p else None\<close>: the condition is evaluated first, \<open>X\<close>
  only when it holds.\<close>

definition maybe :: "real \<Rightarrow> 'a io \<Rightarrow> 'a option io" where
  "maybe p m =
     bind_io random_random (\<lambda>u.
       if u > p then bind_io m (\<lambda>x. return_io (Some x)) else return_io None)"

definition gen_vulnerability :: "string list \<Rightarrow> nat \<Rightarrow> vulnerability io" where
  "gen_vulnerability pool i =
     bind_io (choice pool) (\<lambda>aid.
     bind_io (uniform 1.0 10.0) (\<lambda>x.
     let cvss = round1 x; severity = severity_of cvss in
     bind_io now (\<lambda>t.
     bind_io (randint 0 365) (\<lambda>r.
     let discovered = days_ago t r in
     bind_io (randint 2019 2024) (\<lambda>yr.
     bind_io (randint 10000 99999) (\<lambda>num.
     bind_io (choice vuln_categories) (\<lambda>cat.
     bind_io fake (\<lambda>sentence.
     bind_io (maybe 0.4 (bind_io (randint 1 120) (\<lambda>k. return_io (discovered + k)))) (\<lambda>rem.
     bind_io (choice vuln_statuses) (\<lambda>st.
     return_io
       \<lparr>vuln_id = ''VUL'' @ zpad 5 i,
        cve_id = ''CVE-'' @ str_int yr @ ''-'' @ str_int num,
        vuln_asset_id = aid,
        cvss_score = cvss,
        severity_label = severity,
        vuln_category = cat,
        description = sentence,
        discovered_date = discovered,
        remediated_date = rem,
        vuln_status = st\<rparr>))))))))))"

definition gen_incident :: "string list \<Rightarrow> string list \<Rightarrow> nat \<Rightarrow> incident io" where
  "gen_incident asset_pool actor_pool i =
     bind_io (choice asset_pool) (\<lambda>aid.
     bind_io (choice actor_pool) (\<lambda>tid.
     bind_io now (\<lambda>t.
     bind_io (randint 0 365) (\<lambda>r.
     let detected = days_ago_seconds t r in
     bind_io (choice incident_types) (\<lambda>ty.
     bind_io (choice [''Low'', ''Medium'', ''High'', ''Critical'']) (\<lambda>sev.
     bind_io (maybe 0.3 (bind_io (randint 1 720) (\<lambda>h. return_io (detected + 3600 * h)))) (\<lambda>res.
     bind_io (choice attack_vectors) (\<lambda>av.
     bind_io (choice kill_chain_phases) (\<lambda>ph.
     return_io
       \<lparr>incident_id = ''INC'' @ zpad 5 i,
        inc_asset_id = aid,
        incident_type = ty,
        inc_severity = sev,
        detected_at = detected,
        resolved_at = res,
        attack_vector = av,
        kill_chain_phase = ph,
        threat_actor_id = tid\<rparr>)))))))))"

definition gen_control :: "nat \<Rightarrow> control io" where
  "gen_control i =
     bind_io (choice frameworks) (\<lambda>fw.
     bind_io (choice nist_categories) (\<lambda>cat.
     bind_io (choice control_names) (\<lambda>cn.
     bind_io (choice implementation_statuses) (\<lambda>st.
     bind_io now (\<lambda>t.
     bind_io (randint 0 365) (\<lambda>r.
     bind_io (uniform 0.0 100.0) (\<lambda>x.
     return_io
       \<lparr>control_id = ''CTL'' @ zpad 4 i,
        framework = fw,
        ctl_category = cat,
        control_name = cn,
        implementation_status = st,
        last_reviewed_date = days_ago t r,
        compliance_score = round1 x\<rparr>)))))))"

subsection \<open>Writing the files\<close>

definition actor_row :: "threat_actor \<Rightarrow> row" where
  "actor_row a =
     [Some (Str (actor_id a)), Some (Str (name a)), Some (Str (actor_type a)),
      Some (Str (country_origin a)), Some (Str (ttps a)), Some (Date (active_since a)),
      Some (Str (sophistication_level a))]"

definition asset_row :: "asset \<Rightarrow> row" where
  "asset_row a =
     [Some (Str (asset_id a)), Some (Str (hostname a)), Some (Str (ip_address a)),
      Some (Str (asset_type a)), Some (Str (criticality a)), Some (Str (owner a)),
      Some (Str (location a)), Some (Str (os a)), Some (Date (last_patched_date a))]"

definition vulnerability_row :: "vulnerability \<Rightarrow> row" where
  "vulnerability_row v =
     [Some (Str (vuln_id v)), Some (Str (cve_id v)), Some (Str (vuln_asset_id v)),
      Some (Float (cvss_score v)), Some (Str (severity_label v)), Some (Str (vuln_category v)),
      Some (Str (description v)), Some (Date (discovered_date v)),
      map_option Date (remediated_date v), Some (Str (vuln_status v))]"

definition incident_row :: "incident \<Rightarrow> row" where
  "incident_row i =
     [Some (Str (incident_id i)), Some (Str (inc_asset_id i)), Some (Str (incident_type i)),
      Some (Str (inc_severity i)), Some (Stamp (detected_at i)),
      map_option Stamp (resolved_at i), Some (Str (attack_vector i)),
      Some (Str (kill_chain_phase i)), Some (Str (threat_actor_id i))]"

definition control_row :: "control \<Rightarrow> row" where
  "control_row c =
     [Some (Str (control_id c)), Some (Str (framework c)), Some (Str (ctl_category c)),
      Some (Str (control_name c)), Some (Str (implementation_status c)),
      Some (Date (last_reviewed_date c)), Some (Float (compliance_score c))]"

definition header_row :: "string list \<Rightarrow> row" where
  "header_row cols = map (\<lambda>c. Some (Str c)) cols"

text \<open>The keys of each loop's dictionaries, in their order: the columns of the file.\<close>

definition threat_actor_cols :: "string list" where
  "threat_actor_cols =
     [''actor_id'', ''name'', ''actor_type'', ''country_origin'', ''ttps'', ''active_since'',
      ''sophistication_level'']"

definition asset_cols :: "string list" where
  "asset_cols =
     [''asset_id'', ''hostname'', ''ip_address'', ''asset_type'', ''criticality'', ''owner'',
      ''location'', ''os'', ''last_patched_date'']"

definition vulnerability_cols :: "string list" where
  "vulnerability_cols =
     [''vuln_id'', ''cve_id'', ''asset_id'', ''cvss_score'', ''severity_label'', ''category'',
      ''description'', ''discovered_date'', ''remediated_date'', ''status'']"

definition incident_cols :: "string list" where
  "incident_cols =
     [''incident_id'', ''asset_id'', ''incident_type'', ''severity'', ''detected_at'',
      ''resolved_at'', ''attack_vector'', ''kill_chain_phase'', ''threat_actor_id'']"

definition control_cols :: "string list" where
  "control_cols =
     [''control_id'', ''framework'', ''category'', ''control_name'', ''implementation_status'',
      ''last_reviewed_date'', ''compliance_score'']"

text \<open>\<open>pd.DataFrame(records).to_csv(path, index=False)\<close>\<close>

definition to_csv :: "string \<Rightarrow> string list \<Rightarrow> row list \<Rightarrow> unit io" where
  "to_csv path cols rows w =
     (Inr (), w\<lparr>csv_files := (csv_files w)(path \<mapsto> header_row cols # rows)\<rparr>)"

record dataset =
  threat_actors :: "threat_actor list"
  assets :: "asset list"
  vulnerabilities :: "vulnerability list"
  incidents :: "incident list"
  controls :: "control list"

text \<open>The script, top to bottom; its value is the five lists it has built.\<close>

definition generate_data :: "dataset io" where
  "generate_data =
     then_io (print (Info ''Generating threat_actors.csv...'')) (
     bind_io (mapM_io gen_threat_actor [1..<51]) (\<lambda>tas.
     then_io (to_csv ''data/csv/threat_actors.csv'' threat_actor_cols (map actor_row tas)) (
     then_io (print (Info ''Generating assets.csv...'')) (
     bind_io (mapM_io gen_asset [1..<201]) (\<lambda>asts.
     then_io (to_csv ''data/csv/assets.csv'' asset_cols (map asset_row asts)) (
     then_io (print (Info ''Generating vulnerabilities.csv...'')) (
     bind_io (mapM_io (gen_vulnerability (map asset_id asts)) [1..<501]) (\<lambda>vulns.
     then_io (to_csv ''data/csv/vulnerabilities.csv'' vulnerability_cols
        (map vulnerability_row vulns)) (
     then_io (print (Info ''Generating incidents.csv...'')) (
     bind_io (mapM_io (gen_incident (map asset_id asts) (map actor_id tas)) [1..<301]) (\<lambda>incs.
     then_io (to_csv ''data/csv/incidents.csv'' incident_cols (map incident_row incs)) (
     then_io (print (Info ''Generating security_controls.csv...'')) (
     bind_io (mapM_io gen_control [1..<101]) (\<lambda>ctls.
     then_io (to_csv ''data/csv/security_controls.csv'' control_cols (map control_row ctls)) (
     then_io (print (Info ''Data generation complete!'')) (
     then_io (print (Summary ''assets.csv'' (length asts))) (
     then_io (print (Summary ''vulnerabilities.csv'' (length vulns))) (
     then_io (print (Summary ''incidents.csv'' (length incs))) (
     then_io (print (Summary ''security_controls.csv'' (length ctls))) (
     then_io (print (Summary ''threat_actors.csv'' (length tas))) (
     then_io (print (Info ''All files saved to: data/csv/'')) (
     return_io
       \<lparr>threat_actors = tas, assets = asts, vulnerabilities = vulns, incidents = incs,
        controls = ctls\<rparr>))))))))))))))))))))))"

section \<open>The loader: \<^verbatim>\<open>scripts/ingest.py\<close>\<close>

subsection \<open>String operations of the standard library\<close>

text \<open>Characters are bytes; the white space and line boundaries are the ASCII ones.\<close>

definition is_space :: "char \<Rightarrow> bool" where
  "is_space c = (let n = (of_char c :: nat) in (9 \<le> n \<and> n \<le> 13) \<or> (28 \<le> n \<and> n \<le> 32))"

definition is_linebreak :: "char \<Rightarrow> bool" where
  "is_linebreak c = (let n = (of_char c :: nat) in (10 \<le> n \<and> n \<le> 13) \<or> (28 \<le> n \<and> n \<le> 30))"

definition strip :: "string \<Rightarrow> string" where
  "strip s = rev (dropWhile is_space (rev (dropWhile is_space s)))"

text \<open>\<open>s.split(c)\<close>\<close>

fun split_on :: "char \<Rightarrow> string \<Rightarrow> string list" where
  "split_on c [] = [[]]"
| "split_on c (x # xs) =
     (if x = c then [] # split_on c xs
      else (case split_on c xs of [] \<Rightarrow> [[x]] | p # ps \<Rightarrow> (x # p) # ps))"

text \<open>\<open>s.splitlines()\<close>, the line read so far in reverse\<close>

fun splitlines_from :: "string \<Rightarrow> string \<Rightarrow> string list" where
  "splitlines_from cur [] = (if cur = [] then [] else [rev cur])"
| "splitlines_from cur (c # cs) =
     (if c = CHR 0x0D \<and> cs \<noteq> [] \<and> hd cs = CHR 0x0A then rev cur # splitlines_from [] (tl cs)
      else if is_linebreak c then rev cur # splitlines_from [] cs
      else splitlines_from (c # cur) cs)"

definition splitlines :: "string \<Rightarrow> string list" where
  "splitlines s = splitlines_from [] s"

text \<open>\<open>s.split()\<close>\<close>

fun split_from :: "string \<Rightarrow> string \<Rightarrow> string list" where
  "split_from cur [] = (if cur = [] then [] else [rev cur])"
| "split_from cur (c # cs) =
     (if is_space c then (if cur = [] then split_from [] cs else rev cur # split_from [] cs)
      else split_from (c # cur) cs)"

definition split :: "string \<Rightarrow> string list" where
  "split s = split_from [] s"

definition startswith :: "string \<Rightarrow> string \<Rightarrow> bool" where
  "startswith s p = (take (length p) s = p)"

text \<open>\<open>sub in s\<close>\<close>

fun contains :: "string \<Rightarrow> string \<Rightarrow> bool" where
  "contains [] sub = (sub = [])"
| "contains (c # cs) sub = (startswith (c # cs) sub \<or> contains cs sub)"

text \<open>\<open>xs.index(x)\<close>, for an \<open>x\<close> that occurs\<close>

definition index :: "'a list \<Rightarrow> 'a \<Rightarrow> nat" where
  "index xs x = length (takeWhile (\<lambda>y. y \<noteq> x) xs)"

text \<open>\<open>int(x)\<close> of a float\<close>

definition trunc :: "real \<Rightarrow> int" where
  "trunc x = (if 0 \<le> x then \<lfloor>x\<rfloor> else \<lceil>x\<rceil>)"

subsection \<open>The pipeline log\<close>

definition PIPELINE_LOG :: string where
  "PIPELINE_LOG = ''pipeline_logs.csv''"

definition CSV_FILES :: "string list" where
  "CSV_FILES =
     [''data/csv/threat_actors.csv'', ''data/csv/assets.csv'', ''data/csv/vulnerabilities.csv'',
      ''data/csv/incidents.csv'', ''data/csv/security_controls.csv'']"

definition fieldnames :: "string list" where
  "fieldnames =
     [''timestamp'', ''feature'', ''operation'', ''latency_ms'', ''record_count'', ''status'']"

text \<open>\<open>csv.DictWriter(f, fieldnames).writerow(d)\<close>: the values in the order of the field
  names, an absent key as an empty field, a key that is no field name as an error.\<close>

definition writerow :: "string list \<Rightarrow> (string \<times> cell) list \<Rightarrow> exn + row" where
  "writerow names d =
     (if \<exists>k \<in> set (map fst d). k \<notin> set names then Inl ValueError
      else Inr (map (map_of d) names))"

text \<open>\<open>open(path, 'a')\<close> and one row written: the file is created when it is absent.\<close>

definition append_row :: "string \<Rightarrow> row \<Rightarrow> unit io" where
  "append_row path r w =
     (Inr (), w\<lparr>csv_files := (csv_files w)(path \<mapsto>
        (case csv_files w path of None \<Rightarrow> [r] | Some rows \<Rightarrow> rows @ [r]))\<rparr>)"

definition init_pipeline_log :: "unit io" where
  "init_pipeline_log w =
     (if csv_files w PIPELINE_LOG = None
      then (Inr (), w\<lparr>csv_files := (csv_files w)(PIPELINE_LOG \<mapsto> [header_row fieldnames])\<rparr>)
      else (Inr (), w))"

text \<open>The parameter \<open>status\<close> is optional, \<open>'SUCCESS'\<close> by default.\<close>

definition log_pipeline :: "string \<Rightarrow> string \<Rightarrow> int \<Rightarrow> int \<Rightarrow> string option \<Rightarrow> unit io" where
  "log_pipeline feature operation latency_ms record_count status =
     bind_io now (\<lambda>timestamp.
     (case writerow fieldnames
         [(''timestamp'', Iso timestamp), (''feature'', Str feature),
          (''operation'', Str operation), (''latency_ms'', Num latency_ms),
          (''record_count'', Num record_count),
          (''status'', Str (case status of None \<Rightarrow> ''SUCCESS'' | Some s \<Rightarrow> s))] of
        Inl e \<Rightarrow> raise_io e
      | Inr r \<Rightarrow>
          then_io (append_row PIPELINE_LOG r)
            (print (Logged feature operation latency_ms record_count))))"

subsection \<open>The warehouse driver\<close>

fun run_stmt ::
  "(string \<Rightarrow> (string \<Rightarrow> row list) \<Rightarrow> (string \<Rightarrow> row list)) \<Rightarrow> stmt \<Rightarrow>
   (string \<Rightarrow> row list) \<Rightarrow> (string \<Rightarrow> row list)" where
  "run_stmt eff (Sql text) tb = eff text tb"
| "run_stmt eff (DeleteFrom t) tb = tb(t := [])"
| "run_stmt eff (InsertInto t cols rows) tb = tb(t := tb t @ rows)"
| "run_stmt eff (SelectCount t) tb = tb"

text \<open>\<open>cursor.execute(statement)\<close> and \<open>cursor.executemany(statement, rows)\<close>\<close>

definition execute :: "stmt \<Rightarrow> unit io" where
  "execute st w =
     (case faults w (tick w) of
        Some e \<Rightarrow> (Inl e, w\<lparr>tick := Suc (tick w)\<rparr>)
      | None \<Rightarrow>
          (Inr (), w\<lparr>tick := Suc (tick w), tables := run_stmt (sql_effect w) st (tables w)\<rparr>))"

text \<open>\<open>cursor.execute(f"SELECT COUNT( * ) FROM {table};"); cursor.fetchone()[0]\<close>\<close>

definition select_count :: "string \<Rightarrow> int io" where
  "select_count t =
     then_io (execute (SelectCount t)) (\<lambda>w. (Inr (int (length (tables w t))), w))"

definition connect_snowflake :: "unit io" where
  "connect_snowflake =
     then_io (print (Info ''[1/5] Connecting to Snowflake...''))
       (\<lambda>w. case faults w (tick w) of
          Some e \<Rightarrow>
            (Inl e, w\<lparr>tick := Suc (tick w), stdout := stdout w @ [ConnectFailed e]\<rparr>)
        | None \<Rightarrow> (Inr (), w\<lparr>tick := Suc (tick w), stdout := stdout w @ [Connected]\<rparr>))"

text \<open>\<open>open(path).read()\<close>\<close>

definition read_sql :: "string \<Rightarrow> string io" where
  "read_sql path w =
     (case sql_files w path of None \<Rightarrow> (Inl (FileNotFoundError path), w) | Some t \<Rightarrow> (Inr t, w))"

text \<open>\<open>pd.read_csv(path)\<close>: the header row and the data rows.\<close>

definition read_csv :: "string \<Rightarrow> (row \<times> row list) io" where
  "read_csv path w =
     (case csv_files w path of
        None \<Rightarrow> (Inl (FileNotFoundError path), w)
      | Some [] \<Rightarrow> (Inl EmptyDataError, w)
      | Some (h # rows) \<Rightarrow> (Inr (h, rows), w))"

subsection \<open>The five stages\<close>

text \<open>\<open>for statement in sql.split(';'): if statement.strip(): cursor.execute(statement)\<close>\<close>

definition run_statement :: "string \<Rightarrow> unit io" where
  "run_statement statement =
     (if strip statement \<noteq> [] then execute (Sql statement) else return_io ())"

definition setup_database :: "unit io" where
  "setup_database =
     then_io (print (Info ''[2/5] Setting up Snowflake environment...''))
       (catch_io
          (bind_io (read_sql ''sql/01_setup.sql'') (\<lambda>setup_sql.
           then_io (iter_io run_statement (split_on (CHR '';'') setup_sql)) (
           then_io (print (Info ''Database and warehouse configured'')) (
           bind_io (read_sql ''sql/02_schema.sql'') (\<lambda>schema_sql.
           then_io (iter_io run_statement (split_on (CHR '';'') schema_sql)) (
           print (Info ''Tables created'')))))))
          (\<lambda>e. then_io (print (SetupFailed e)) (raise_io e)))"

definition table_mapping :: "(string \<times> string) list" where
  "table_mapping =
     [(''data/csv/threat_actors.csv'', ''THREAT_ACTORS''),
      (''data/csv/assets.csv'', ''ASSETS''),
      (''data/csv/vulnerabilities.csv'', ''VULNERABILITIES''),
      (''data/csv/incidents.csv'', ''INCIDENTS''),
      (''data/csv/security_controls.csv'', ''SECURITY_CONTROLS'')]"

text \<open>\<open>range(0, n, size)\<close>\<close>

definition batch_starts :: "nat \<Rightarrow> nat \<Rightarrow> nat list" where
  "batch_starts n step = map (\<lambda>k. k * step) [0..<(n + step - 1) div step]"

definition isna :: "cell option \<Rightarrow> bool" where
  "isna v = (v = None)"

definition insert_batch :: "string \<Rightarrow> row \<Rightarrow> row list \<Rightarrow> nat \<Rightarrow> nat \<Rightarrow> unit io" where
  "insert_batch table_name columns rows batch_size i =
     (let batch = take batch_size (drop i rows);
          vals = map (map (\<lambda>v. if isna v then None else v)) batch
      in execute (InsertInto table_name columns vals))"

text \<open>The body of the loop over \<open>table_mapping\<close>.\<close>

definition load_table :: "string \<times> string \<Rightarrow> unit io" where
  "load_table = (\<lambda>(csv_file, table_name) w.
     if csv_files w csv_file = None then print (FileNotFound csv_file) w
     else
       (bind_io now (\<lambda>start_time.
        bind_io (read_csv csv_file) (\<lambda>(columns, rows).
        let row_count = length rows; batch_size = 100 in
        then_io (execute (DeleteFrom table_name)) (
        then_io (iter_io (insert_batch table_name columns rows batch_size)
                   (batch_starts (length rows) batch_size)) (
        bind_io now (\<lambda>end_time.
        let latency_ms = trunc ((end_time - start_time) * 1000) in
        then_io (log_pipeline table_name ''DATA_LOAD'' latency_ms (int row_count) None) (
        print (Loaded table_name row_count latency_ms)))))))) w)"

definition ingest_data :: "unit io" where
  "ingest_data =
     then_io (print (Info ''[3/5] Uploading and ingesting data...''))
       (catch_io (iter_io load_table table_mapping)
          (\<lambda>e. then_io (print (IngestionFailed e)) (raise_io e)))"

text \<open>The name after \<open>VIEW\<close> or \<open>TABLE\<close>, or \<open>'QUERY'\<close>.\<close>

definition object_name :: "string \<Rightarrow> string" where
  "object_name clean_sql =
     (let parts = split clean_sql in
      if ''VIEW'' \<in> set parts then
        (let idx = index parts ''VIEW'' + 1 in if idx < length parts then parts ! idx else ''QUERY'')
      else if ''TABLE'' \<in> set parts then
        (let idx = index parts ''TABLE'' + 1 in if idx < length parts then parts ! idx else ''QUERY'')
      else ''QUERY'')"

definition clean :: "string \<Rightarrow> string" where
  "clean statement =
     strip (join [CHR 0x0A]
       (filter (\<lambda>l. \<not> startswith (strip l) ''--'') (splitlines (strip statement))))"

text \<open>The body of the loop over the statements of \<^verbatim>\<open>sql/04_queries.sql\<close>.\<close>

definition run_query :: "string \<Rightarrow> unit io" where
  "run_query statement =
     (let clean_sql = clean statement in
      if clean_sql = [] then return_io ()
      else
        catch_io
          (bind_io now (\<lambda>start_time.
           then_io (execute (Sql (strip statement))) (
           bind_io now (\<lambda>end_time.
           let latency_ms = trunc ((end_time - start_time) * 1000) in
           if contains statement ''CREATE OR REPLACE'' then
             (let name = object_name clean_sql in
              then_io (log_pipeline ''ANALYTICS'' (''CREATE_'' @ name) latency_ms 0 None)
                (print (Created name)))
           else return_io ()))))
          (\<lambda>e. print (QuerySkipped e)))"

definition create_analytics :: "unit io" where
  "create_analytics =
     then_io (print (Info ''[4/5] Creating analytics queries and views...''))
       (catch_io
          (bind_io (read_sql ''sql/04_queries.sql'') (\<lambda>queries_sql.
           then_io (iter_io run_query (split_on (CHR '';'') queries_sql)) (
           print (Info ''Analytics views and extensions created''))))
          (\<lambda>e. then_io (print (AnalyticsFailed e)) (raise_io e)))"

definition verified_tables :: "string list" where
  "verified_tables =
     [''THREAT_ACTORS'', ''ASSETS'', ''VULNERABILITIES'', ''INCIDENTS'', ''SECURITY_CONTROLS'']"

text \<open>The counting loop, with \<open>total_rows\<close> so far.\<close>

fun count_tables :: "string list \<Rightarrow> int \<Rightarrow> int io" where
  "count_tables [] total_rows = return_io total_rows"
| "count_tables (t # ts) total_rows =
     bind_io (select_count t) (\<lambda>count.
     then_io (print (TableCount (count > 0) t count)) (
     count_tables ts (total_rows + count)))"

definition verify_data :: "unit io" where
  "verify_data =
     then_io (print (Info ''[5/5] Verifying data load...''))
       (catch_io
          (bind_io (count_tables verified_tables 0) (\<lambda>total_rows.
           then_io (print (TotalRows total_rows)) (
           log_pipeline ''PIPELINE'' ''VERIFICATION'' 0 total_rows None)))
          (\<lambda>e. print (VerificationFailed e)))"

text \<open>What \<open>main\<close> runs inside its \<open>try\<close>, and \<open>main\<close> itself with its exit status.\<close>

definition load_stages :: "unit io" where
  "load_stages =
     then_io connect_snowflake (then_io setup_database (then_io ingest_data create_analytics))"

definition pipeline :: "unit io" where
  "pipeline =
     then_io load_stages (
     then_io verify_data (
     print (Info ''Pipeline complete! Check pipeline_logs.csv for details.'')))"

definition main :: "world \<Rightarrow> int \<times> world" where
  "main w =
     (case then_io (print (Info ''CS 5542 Lab 5 - Snowflake Data Ingestion Pipeline''))
             (then_io init_pipeline_log pipeline) w of
        (Inr u, w') \<Rightarrow> (0, w')
      | (Inl e, w') \<Rightarrow> (1, w'\<lparr>stdout := stdout w' @ [PipelineFailed e]\<rparr>))"

section \<open>The dashboard: \<^verbatim>\<open>app/dashboard.py\<close>\<close>

definition emit :: "element \<Rightarrow> unit io" where
  "emit el w = (Inr (), w\<lparr>ui := ui w @ [el]\<rparr>)"

datatype conn = Conn

text \<open>\<open>get_snowflake_connection\<close>: the connection, or \<open>None\<close> after an error box.\<close>

definition get_snowflake_connection :: "conn option io" where
  "get_snowflake_connection w =
     (case faults w (tick w) of
        None \<Rightarrow> (Inr (Some Conn), w\<lparr>tick := Suc (tick w)\<rparr>)
      | Some e \<Rightarrow>
          (Inr None,
           w\<lparr>tick := Suc (tick w),
             ui := ui w @
               [ConnectError e,
                InfoBox ''If MFA is enabled, generate an API Key in Snowflake and set SNOWFLAKE_PRIVATE_KEY in .env'']\<rparr>))"

text \<open>\<open>cursor.execute(query)\<close> and \<open>cursor.fetch_pandas_all()\<close>: two driver calls.\<close>

definition fetch :: "conn option \<Rightarrow> string \<Rightarrow> row list io" where
  "fetch c query =
     (case c of
        None \<Rightarrow> raise_io AttributeError
      | Some _ \<Rightarrow>
          then_io (execute (Sql query))
            (\<lambda>w. case faults w (tick w) of
               Some e \<Rightarrow> (Inl e, w\<lparr>tick := Suc (tick w)\<rparr>)
             | None \<Rightarrow> (Inr (query_result w query (tables w)), w\<lparr>tick := Suc (tick w)\<rparr>)))"

definition execute_query :: "conn option \<Rightarrow> string \<Rightarrow> (row list option \<times> int) io" where
  "execute_query c query =
     catch_io
       (bind_io now (\<lambda>start_time.
        bind_io (fetch c query) (\<lambda>df.
        bind_io now (\<lambda>end_time.
        return_io (Some df, trunc ((end_time - start_time) * 1000))))))
       (\<lambda>e. then_io (emit (QueryError e)) (return_io (None, 0)))"

text \<open>\<open>st.stop()\<close>\<close>

definition stop :: "unit io" where
  "stop = raise_io StopException"

text \<open>The script down to the end of the sidebar; \<open>tabs\<close> is the rest of it, which gets the
  connection.\<close>

definition dashboard :: "(conn option \<Rightarrow> unit io) \<Rightarrow> unit io" where
  "dashboard tabs =
     then_io (emit (Title ''Cybersecurity Risk Dashboard'')) (
     then_io (emit (Markdown
        ''**Real-time analysis of security vulnerabilities, incidents, and compliance**'')) (
     then_io (emit (Header ''Connection'')) (
     bind_io get_snowflake_connection (\<lambda>c.
     then_io
       (if c \<noteq> None then emit (Success ''Connected to Snowflake'')
        else then_io (emit (ErrorBox ''Not connected to Snowflake'')) stop) (
     then_io (emit Divider) (
     then_io (emit (Caption ''Lab 5 - CS 5542 Snowflake Integration'')) (
     tabs c)))))))"

text \<open>How a run of the script ends: a stop is no failure, any other exception reaches
  Streamlit as a crash.\<close>

datatype outcome = Completed | Stopped | Crashed exn

definition run_script :: "unit io \<Rightarrow> world \<Rightarrow> outcome \<times> world" where
  "run_script m w =
     (case m w of
        (Inr u, w') \<Rightarrow> (Completed, w')
      | (Inl StopException, w') \<Rightarrow> (Stopped, w')
      | (Inl e, w') \<Rightarrow> (Crashed e, w'))"

section \<open>Notions used to state the properties\<close>

subsection \<open>Generated data\<close>

text \<open>A computation that, when the random generator satisfies \<open>J\<close>, returns, moves only
  \<open>tick\<close>, and has a value that satisfies \<open>P\<close>.\<close>

definition pure_gen :: "((nat \<Rightarrow> real) \<Rightarrow> bool) \<Rightarrow> 'a io \<Rightarrow> ('a \<Rightarrow> bool) \<Rightarrow> bool" where
  "pure_gen J m P = (\<forall>w. J (rand w) \<longrightarrow> (\<exists>x n. m w = (Inr x, w\<lparr>tick := n\<rparr>) \<and> P x))"

text \<open>An optional later date: between \<open>unit\<close> and \<open>unit * hi\<close> after \<open>start\<close>.\<close>

definition later_within :: "int \<Rightarrow> int \<Rightarrow> int \<Rightarrow> int option \<Rightarrow> bool" where
  "later_within unit hi start d =
     (case d of None \<Rightarrow> True | Some x \<Rightarrow> start + unit \<le> x \<and> x \<le> start + unit * hi)"

text \<open>An optional value that is present when every draw of a random generator satisfying
  \<open>J\<close> exceeds the threshold \<open>p\<close>.\<close>

definition forced :: "((nat \<Rightarrow> real) \<Rightarrow> bool) \<Rightarrow> real \<Rightarrow> 'a option \<Rightarrow> bool" where
  "forced J p d = ((\<forall>r n. J r \<longrightarrow> p < frac (r n)) \<longrightarrow> d \<noteq> None)"

definition vulnerability_ok ::
  "((nat \<Rightarrow> real) \<Rightarrow> bool) \<Rightarrow> string list \<Rightarrow> vulnerability \<Rightarrow> bool" where
  "vulnerability_ok J pool v =
     (vuln_asset_id v \<in> set pool \<and> severity_label v = severity_of (cvss_score v) \<and>
      (\<exists>r n. J r \<and> cvss_score v = round1 (1 + 9 * frac (r n))) \<and>
      later_within 1 120 (discovered_date v) (remediated_date v) \<and>
      forced J (2 / 5) (remediated_date v))"

definition incident_ok ::
  "((nat \<Rightarrow> real) \<Rightarrow> bool) \<Rightarrow> string list \<Rightarrow> string list \<Rightarrow> incident \<Rightarrow> bool" where
  "incident_ok J asset_pool actor_pool i =
     (inc_asset_id i \<in> set asset_pool \<and> threat_actor_id i \<in> set actor_pool \<and>
      later_within 3600 720 (detected_at i) (resolved_at i) \<and>
      forced J (3 / 10) (resolved_at i))"

definition dataset_ok :: "((nat \<Rightarrow> real) \<Rightarrow> bool) \<Rightarrow> dataset \<Rightarrow> bool" where
  "dataset_ok J ds =
     (length (threat_actors ds) = 50 \<and> length (assets ds) = 200 \<and>
      length (vulnerabilities ds) = 500 \<and> length (incidents ds) = 300 \<and>
      length (controls ds) = 100 \<and>
      (\<forall>v\<in>set (vulnerabilities ds). vulnerability_ok J (map asset_id (assets ds)) v) \<and>
      (\<forall>i\<in>set (incidents ds).
         incident_ok J (map asset_id (assets ds)) (map actor_id (threat_actors ds)) i))"

text \<open>The files and the output the generator leaves for a data set.\<close>

definition generated_files ::
  "dataset \<Rightarrow> (string \<Rightarrow> row list option) \<Rightarrow> (string \<Rightarrow> row list option)" where
  "generated_files ds fs =
     fs(''data/csv/threat_actors.csv'' \<mapsto>
          header_row threat_actor_cols # map actor_row (threat_actors ds),
        ''data/csv/assets.csv'' \<mapsto> header_row asset_cols # map asset_row (assets ds),
        ''data/csv/vulnerabilities.csv'' \<mapsto>
          header_row vulnerability_cols # map vulnerability_row (vulnerabilities ds),
        ''data/csv/incidents.csv'' \<mapsto>
          header_row incident_cols # map incident_row (incidents ds),
        ''data/csv/security_controls.csv'' \<mapsto>
          header_row control_cols # map control_row (controls ds))"

definition generated_output :: "dataset \<Rightarrow> msg list" where
  "generated_output ds =
     [Info ''Generating threat_actors.csv...'', Info ''Generating assets.csv...'',
      Info ''Generating vulnerabilities.csv...'', Info ''Generating incidents.csv...'',
      Info ''Generating security_controls.csv...'', Info ''Data generation complete!'',
      Summary ''assets.csv'' (length (assets ds)),
      Summary ''vulnerabilities.csv'' (length (vulnerabilities ds)),
      Summary ''incidents.csv'' (length (incidents ds)),
      Summary ''security_controls.csv'' (length (controls ds)),
      Summary ''threat_actors.csv'' (length (threat_actors ds)),
      Info ''All files saved to: data/csv/'']"

subsection \<open>The pipeline log\<close>

definition log_rows :: "world \<Rightarrow> row list" where
  "log_rows w = (case csv_files w PIPELINE_LOG of None \<Rightarrow> [] | Some rows \<Rightarrow> rows)"

text \<open>The row \<open>log_pipeline\<close> writes: the six values in the order of \<open>fieldnames\<close>.\<close>

definition log_entry :: "real \<Rightarrow> string \<Rightarrow> string \<Rightarrow> int \<Rightarrow> int \<Rightarrow> string \<Rightarrow> row" where
  "log_entry ts feature operation latency_ms record_count st =
     [Some (Iso ts), Some (Str feature), Some (Str operation), Some (Num latency_ms),
      Some (Num record_count), Some (Str st)]"

text \<open>The log a run of \<open>main\<close> starts from: \<open>init_pipeline_log\<close> has written the header
  row when the file was not there.\<close>

definition log_start :: "world \<Rightarrow> row list" where
  "log_start w =
     (if csv_files w PIPELINE_LOG = None then [header_row fieldnames] else log_rows w)"

text \<open>The number of rows of the log whose third column is \<open>operation\<close>.\<close>

definition operation_count :: "string \<Rightarrow> row list \<Rightarrow> nat" where
  "operation_count operation rows =
     length (filter (\<lambda>r. length r = 6 \<and> r ! 2 = Some (Str operation)) rows)"

text \<open>A step from \<open>w\<close> to \<open>w'\<close> that only appends entries with status \<open>SUCCESS\<close> to the
  log, does not remove the log file, and leaves the other files and the oracles alone.\<close>

definition grows :: "world \<Rightarrow> world \<Rightarrow> bool" where
  "grows w w' =
     ((\<exists>new. log_rows w' = log_rows w @ new \<and>
         (\<forall>r\<in>set new. \<exists>ts f operation l c. r = log_entry ts f operation l c ''SUCCESS'')) \<and>
      (csv_files w PIPELINE_LOG \<noteq> None \<longrightarrow> csv_files w' PIPELINE_LOG \<noteq> None) \<and>
      (\<forall>p. p \<noteq> PIPELINE_LOG \<longrightarrow> csv_files w' p = csv_files w p) \<and>
      sql_files w' = sql_files w \<and> faults w' = faults w \<and> sql_effect w' = sql_effect w)"

definition keeps :: "(world \<Rightarrow> world \<Rightarrow> bool) \<Rightarrow> 'a io \<Rightarrow> bool" where
  "keeps R m = (\<forall>w. R w (snd (m w)))"

subsection \<open>Runs of the loader\<close>

definition SQL_FILES :: "string list" where
  "SQL_FILES = [''sql/01_setup.sql'', ''sql/02_schema.sql'', ''sql/04_queries.sql'']"

text \<open>A world in which a run of the loader is complete: no driver call fails, the three
  SQL files can be read, and each of the five CSV files is there with its header row.\<close>

definition healthy :: "world \<Rightarrow> bool" where
  "healthy w =
     ((\<forall>k. faults w k = None) \<and> (\<forall>p\<in>set SQL_FILES. sql_files w p \<noteq> None) \<and>
      (\<forall>p\<in>set CSV_FILES. \<exists>h rows. csv_files w p = Some (h # rows)))"

text \<open>The statements of the SQL files leave the rows of the named tables alone.\<close>

definition untouched :: "world \<Rightarrow> string list \<Rightarrow> bool" where
  "untouched w ts = (\<forall>s tb. \<forall>t\<in>set ts. sql_effect w s tb t = tb t)"

text \<open>A step that leaves the rows of the named tables as they are, provided the statements
  of the SQL files do.\<close>

definition held :: "string list \<Rightarrow> world \<Rightarrow> world \<Rightarrow> bool" where
  "held ts w w' =
     (sql_effect w' = sql_effect w \<and>
      (untouched w ts \<longrightarrow> (\<forall>t\<in>set ts. tables w' t = tables w t)))"

text \<open>\<open>log_after n w\<close>: the log file of \<open>w\<close> is what \<open>n\<close> complete runs of \<open>main\<close> and any
  number of other runs of \<open>main\<close> have made of it, starting without the file. Between two
  runs everything but the log file may change.\<close>

inductive log_after :: "nat \<Rightarrow> world \<Rightarrow> bool" where
  fresh: "csv_files w PIPELINE_LOG = None \<Longrightarrow> log_after 0 w"
| complete: "log_after n w \<Longrightarrow> healthy w' \<Longrightarrow> csv_files w' PIPELINE_LOG = csv_files w PIPELINE_LOG
     \<Longrightarrow> log_after (Suc n) (snd (main w'))"
| other: "log_after n w \<Longrightarrow> csv_files w' PIPELINE_LOG = csv_files w PIPELINE_LOG
     \<Longrightarrow> log_after n (snd (main w'))"

text \<open>The world in which \<open>main\<close> enters its \<open>try\<close> block.\<close>

definition started :: "world \<Rightarrow> world" where
  "started w =
     snd (then_io (print (Info ''CS 5542 Lab 5 - Snowflake Data Ingestion Pipeline''))
            init_pipeline_log w)"

subsection \<open>Sample worlds\<close>

definition sample_world :: world where
  "sample_world =
     \<lparr>rand = (\<lambda>n. 1 / 2), words = (\<lambda>n. ''alpha''), clock = (\<lambda>n. real n / 4),
      faults = (\<lambda>n. None), sql_effect = (\<lambda>s tb. tb), tick = 0,
      csv_files = (\<lambda>p. None),
      sql_files =
        [''sql/01_setup.sql'' \<mapsto> ''CREATE DATABASE IF NOT EXISTS CYBER_DB; USE CYBER_DB; '',
         ''sql/02_schema.sql'' \<mapsto> ''CREATE TABLE IF NOT EXISTS ASSETS (asset_id STRING)'',
         ''sql/04_queries.sql'' \<mapsto>
           ''-- views'' @ [CHR 0x0A] @ ''CREATE OR REPLACE VIEW V1 AS SELECT 1; SELECT 2; -- end''],
      tables = (\<lambda>t. []), query_result = (\<lambda>q tb. []), stdout = [], ui = []\<rparr>"

text \<open>The sample world with one of the five files, of two records, and a world whose
  \<open>k\<close>-th oracle call, if it is a driver call, fails.\<close>

definition assets_only :: world where
  "assets_only =
     sample_world\<lparr>csv_files :=
       [''data/csv/assets.csv'' \<mapsto>
          [header_row [''asset_id''], [Some (Str ''AST0001'')], [Some (Str ''AST0002'')]]]\<rparr>"

definition failing_at :: "nat \<Rightarrow> world \<Rightarrow> world" where
  "failing_at k w =
     w\<lparr>faults := (\<lambda>n. if n = k then Some (DriverError ''connection reset'') else None)\<rparr>"

section \<open>Generated data: the rules of the judgement\<close>

lemma pure_genD:
  "pure_gen J m P \<Longrightarrow> J (rand w) \<Longrightarrow> \<exists>x n. m w = (Inr x, w\<lparr>tick := n\<rparr>) \<and> P x"
  by (simp add: pure_gen_def)

lemma pure_return: "P x \<Longrightarrow> pure_gen J (return_io x) P"
  unfolding pure_gen_def return_io_def
proof (intro allI impI)
  fix w :: world
  assume "P x"
  have "w = w\<lparr>tick := tick w\<rparr>" by simp
  with \<open>P x\<close> show "\<exists>y n. (Inr x, w) = (Inr y, w\<lparr>tick := n\<rparr>) \<and> P y" by blast
qed

lemma pure_bind:
  assumes m: "pure_gen J m P" and f: "\<And>x. P x \<Longrightarrow> pure_gen J (f x) Q"
  shows "pure_gen J (bind_io m f) Q"
  unfolding pure_gen_def
proof (intro allI impI)
  fix w :: world
  assume j: "J (rand w)"
  from pure_genD [OF m j] obtain x n where mx: "m w = (Inr x, w\<lparr>tick := n\<rparr>)" and px: "P x"
    by blast
  have "J (rand (w\<lparr>tick := n\<rparr>))" using j by simp
  from pure_genD [OF f [OF px] this]
  obtain y k where "f x (w\<lparr>tick := n\<rparr>) = (Inr y, w\<lparr>tick := n\<rparr>\<lparr>tick := k\<rparr>)" and qy: "Q y"
    by blast
  then have "bind_io m f w = (Inr y, w\<lparr>tick := k\<rparr>)"
    by (simp add: bind_io_def mx)
  with qy show "\<exists>y n. bind_io m f w = (Inr y, w\<lparr>tick := n\<rparr>) \<and> Q y" by blast
qed

lemma pure_weaken: "pure_gen J m P \<Longrightarrow> (\<And>x. P x \<Longrightarrow> Q x) \<Longrightarrow> pure_gen J m Q"
  unfolding pure_gen_def by blast

lemma pure_mapM:
  assumes "\<And>x. x \<in> set xs \<Longrightarrow> pure_gen J (f x) P"
  shows "pure_gen J (mapM_io f xs) (\<lambda>ys. length ys = length xs \<and> (\<forall>y\<in>set ys. P y))"
  using assms
proof (induction xs)
  case Nil
  show ?case by (simp add: pure_return)
next
  case (Cons x xs)
  have hd: "pure_gen J (f x) P" by (rule Cons.prems) simp
  have tl: "pure_gen J (mapM_io f xs) (\<lambda>ys. length ys = length xs \<and> (\<forall>y\<in>set ys. P y))"
    by (rule Cons.IH) (simp add: Cons.prems)
  show ?case
    unfolding mapM_io.simps
    by (rule pure_bind [OF hd], rule pure_bind [OF tl], rule pure_return) simp
qed

lemma pure_drawn:
  "pure_gen J random_random (\<lambda>u. 0 \<le> u \<and> u < 1 \<and> (\<exists>r n. J r \<and> u = frac (r n)))"
  unfolding pure_gen_def random_random_def
  by (metis frac_ge_0 frac_lt_1)

lemma pure_unit: "pure_gen J random_random (\<lambda>u. 0 \<le> u \<and> u < 1)"
  by (rule pure_weaken [OF pure_drawn]) simp

lemma pure_fake: "pure_gen J fake (\<lambda>_. True)"
  unfolding pure_gen_def fake_def by blast

lemma pure_now: "pure_gen J now (\<lambda>_. True)"
  unfolding pure_gen_def now_def by blast

lemma floor_scaled:
  fixes u :: real and n :: int
  assumes "0 \<le> u" "u < 1" "0 < n"
  shows "0 \<le> \<lfloor>u * of_int n\<rfloor> \<and> \<lfloor>u * of_int n\<rfloor> < n"
proof
  show "0 \<le> \<lfloor>u * of_int n\<rfloor>" using assms by simp
  have "u * of_int n < of_int n" using assms by simp
  then show "\<lfloor>u * of_int n\<rfloor> < n" by (simp add: floor_less_iff)
qed

lemma pure_uniform_drawn:
  "pure_gen J (uniform a b) (\<lambda>x. \<exists>r n. J r \<and> x = a + (b - a) * frac (r n))"
  unfolding uniform_def
  by (rule pure_bind [OF pure_drawn], rule pure_return) blast

lemma pure_randint: "a \<le> b \<Longrightarrow> pure_gen J (randint a b) (\<lambda>k. a \<le> k \<and> k \<le> b)"
  unfolding randint_def
  apply simp
  apply (rule pure_bind [OF pure_unit])
  apply (rule pure_return)
  using floor_scaled [of _ "b - a + 1"] apply fastforce
  done

lemma pure_choice: "xs \<noteq> [] \<Longrightarrow> pure_gen J (choice xs) (\<lambda>x. x \<in> set xs)"
  unfolding choice_def
  apply simp
  apply (rule pure_bind [OF pure_unit])
  apply (rule pure_return)
  apply (rule nth_mem)
  using floor_scaled [of _ "int (length xs)"]
  apply (metis length_greater_0_conv nat_less_iff of_int_of_nat_eq of_nat_0_less_iff)
  done

lemma pure_sample_from: "k \<le> length xs \<Longrightarrow> pure_gen J (sample_from xs k) (\<lambda>r. length r = k)"
proof (induction k arbitrary: xs)
  case 0
  show ?case by (simp add: pure_return)
next
  case (Suc k)
  then have ne: "[0..<length xs] \<noteq> []" by auto
  show ?case
    unfolding sample_from.simps
  proof (rule pure_bind [OF pure_choice [OF ne]])
    fix j assume "j \<in> set [0..<length xs]"
    then have "k \<le> length (take j xs @ drop (Suc j) xs)" using Suc.prems by auto
    from Suc.IH [OF this]
    show "pure_gen J (bind_io (sample_from (take j xs @ drop (Suc j) xs) k) (\<lambda>r. return_io (xs ! j # r)))
          (\<lambda>r. length r = Suc k)"
      by (rule pure_bind) (simp add: pure_return)
  qed
qed

lemma pure_sample:
  "0 \<le> k \<Longrightarrow> k \<le> int (length xs) \<Longrightarrow> pure_gen J (sample xs k) (\<lambda>r. int (length r) = k)"
  unfolding sample_def
  apply simp
  apply (rule pure_weaken [OF pure_sample_from [of "nat k" xs]])
   apply auto
  done

text \<open>The optional value: nothing is known of its presence in general; it is present when
  every draw exceeds the threshold.\<close>

lemma pure_maybe:
  assumes "pure_gen J m P"
  shows "pure_gen J (maybe p m)
     (\<lambda>r. (case r of None \<Rightarrow> True | Some x \<Rightarrow> P x) \<and> ((\<forall>r n. J r \<longrightarrow> p < frac (r n)) \<longrightarrow> r \<noteq> None))"
  unfolding maybe_def
proof (rule pure_bind [OF pure_drawn])
  fix u :: real
  assume u: "0 \<le> u \<and> u < 1 \<and> (\<exists>r n. J r \<and> u = frac (r n))"
  let ?Q = "\<lambda>r. (case r of None \<Rightarrow> True | Some x \<Rightarrow> P x) \<and> ((\<forall>r n. J r \<longrightarrow> p < frac (r n)) \<longrightarrow> r \<noteq> None)"
  show "pure_gen J (if p < u then bind_io m (\<lambda>x. return_io (Some x)) else return_io None) ?Q"
  proof (cases "p < u")
    case True
    have "pure_gen J (bind_io m (\<lambda>x. return_io (Some x))) ?Q"
      by (rule pure_bind [OF assms]) (simp add: pure_return)
    with True show ?thesis by simp
  next
    case False
    then have "\<not> (\<forall>r n. J r \<longrightarrow> p < frac (r n))" using u by auto
    with False show ?thesis by (simp add: pure_return)
  qed
qed

lemma pure_offset:
  "pure_gen J (bind_io (randint 1 hi) (\<lambda>k. return_io (start + unit * k)))
     (\<lambda>x. start + unit \<le> x \<and> x \<le> start + unit * hi)" if "1 \<le> hi" "0 < unit"
proof (rule pure_bind [OF pure_randint [OF that(1)]], rule pure_return)
  fix k :: int
  assume "1 \<le> k \<and> k \<le> hi"
  then have "unit * 1 \<le> unit * k" "unit * k \<le> unit * hi"
    using that(2) by (auto intro: mult_left_mono)
  then show "start + unit \<le> start + unit * k \<and> start + unit * k \<le> start + unit * hi" by simp
qed

section \<open>Generated data: the records and the data set\<close>

lemma pure_gen_vulnerability:
  assumes ne: "pool \<noteq> []"
  shows "pure_gen J (gen_vulnerability pool i) (vulnerability_ok J pool)"
  unfolding gen_vulnerability_def Let_def
  apply (rule pure_bind [OF pure_choice [OF ne]])
  apply (rule pure_bind [OF pure_uniform_drawn])
  apply (rule pure_bind [OF pure_now])
  apply (rule pure_bind [OF pure_randint], simp)
  apply (rule pure_bind [OF pure_randint], simp)
  apply (rule pure_bind [OF pure_randint], simp)
  apply (rule pure_bind [OF pure_choice], simp add: vuln_categories_def)
  apply (rule pure_bind [OF pure_fake])
  apply (rule pure_bind [OF pure_maybe [OF pure_offset [of 120 1, simplified]]])
  apply (rule pure_bind [OF pure_choice], simp add: vuln_statuses_def)
  apply (rule pure_return)
  apply (auto simp add: vulnerability_ok_def later_within_def forced_def split: option.splits)
  done

lemma pure_gen_incident:
  assumes ne: "asset_pool \<noteq> []" "actor_pool \<noteq> []"
  shows "pure_gen J (gen_incident asset_pool actor_pool i) (incident_ok J asset_pool actor_pool)"
  unfolding gen_incident_def Let_def
  apply (rule pure_bind [OF pure_choice [OF ne(1)]])
  apply (rule pure_bind [OF pure_choice [OF ne(2)]])
  apply (rule pure_bind [OF pure_now])
  apply (rule pure_bind [OF pure_randint], simp)
  apply (rule pure_bind [OF pure_choice], simp add: incident_types_def)
  apply (rule pure_bind [OF pure_choice], simp)
  apply (rule pure_bind [OF pure_maybe [OF pure_offset [of 720 3600, simplified]]])
  apply (rule pure_bind [OF pure_choice], simp add: attack_vectors_def)
  apply (rule pure_bind [OF pure_choice], simp add: kill_chain_phases_def)
  apply (rule pure_return)
  apply (auto simp add: incident_ok_def later_within_def forced_def split: option.splits)
  done

lemma pure_gen_threat_actor: "pure_gen J (gen_threat_actor i) (\<lambda>_. True)"
  unfolding gen_threat_actor_def
  apply (rule pure_bind [OF pure_fake])
  apply (rule pure_bind [OF pure_fake])
  apply (rule pure_bind [OF pure_choice], simp add: actor_types_def)
  apply (rule pure_bind [OF pure_fake])
  apply (rule pure_bind [OF pure_randint], simp)
  apply (rule pure_bind [OF pure_sample], simp, simp add: ttps_pool_def)
  apply (rule pure_bind [OF pure_now])
  apply (rule pure_bind [OF pure_randint], simp)
  apply (rule pure_bind [OF pure_choice], simp)
  apply (rule pure_return)
  apply simp
  done

lemma pure_gen_asset: "pure_gen J (gen_asset i) (\<lambda>_. True)"
  unfolding gen_asset_def
  apply (rule pure_bind [OF pure_fake])
  apply (rule pure_bind [OF pure_fake])
  apply (rule pure_bind [OF pure_fake])
  apply (rule pure_bind [OF pure_choice], simp add: asset_types_def)
  apply (rule pure_bind [OF pure_choice], simp add: criticality_levels_def)
  apply (rule pure_bind [OF pure_fake])
  apply (rule pure_bind [OF pure_fake])
  apply (rule pure_bind [OF pure_choice], simp add: os_types_def)
  apply (rule pure_bind [OF pure_now])
  apply (rule pure_bind [OF pure_randint], simp)
  apply (rule pure_return)
  apply simp
  done

lemma pure_gen_control: "pure_gen J (gen_control i) (\<lambda>_. True)"
  unfolding gen_control_def
  apply (rule pure_bind [OF pure_choice], simp add: frameworks_def)
  apply (rule pure_bind [OF pure_choice], simp add: nist_categories_def)
  apply (rule pure_bind [OF pure_choice], simp add: control_names_def)
  apply (rule pure_bind [OF pure_choice], simp add: implementation_statuses_def)
  apply (rule pure_bind [OF pure_now])
  apply (rule pure_bind [OF pure_randint], simp)
  apply (rule pure_bind [OF pure_uniform_drawn])
  apply (rule pure_return)
  apply simp
  done

lemma generate_data_result:
  assumes j: "J (rand w)"
  shows "\<exists>ds n. generate_data w =
       (Inr ds, w\<lparr>tick := n, csv_files := generated_files ds (csv_files w),
          stdout := stdout w @ generated_output ds\<rparr>)
     \<and> dataset_ok J ds"
proof -
  define w1 where "w1 = w\<lparr>stdout := stdout w @ [Info ''Generating threat_actors.csv...'']\<rparr>"
  have j1: "J (rand w1)" using j by (simp add: w1_def)
  obtain tas n1 where tas: "mapM_io gen_threat_actor [1..<51] w1 = (Inr tas, w1\<lparr>tick := n1\<rparr>)"
    and ltas: "length tas = 50"
    using pure_genD [OF pure_mapM [of "[1..<51]" J gen_threat_actor, OF pure_gen_threat_actor] j1]
    by auto
  define w2 where "w2 = w1\<lparr>tick := n1,
     csv_files := (csv_files w)(''data/csv/threat_actors.csv'' \<mapsto>
        header_row threat_actor_cols # map actor_row tas),
     stdout := stdout w1 @ [Info ''Generating assets.csv...'']\<rparr>"
  have j2: "J (rand w2)" using j by (simp add: w2_def w1_def)
  obtain asts n2 where asts: "mapM_io gen_asset [1..<201] w2 = (Inr asts, w2\<lparr>tick := n2\<rparr>)"
    and lasts: "length asts = 200"
    using pure_genD [OF pure_mapM [of "[1..<201]" J gen_asset, OF pure_gen_asset] j2]
    by auto
  have ne1: "map asset_id asts \<noteq> []" using lasts by auto
  have ne2: "map actor_id tas \<noteq> []" using ltas by auto
  define w3 where "w3 = w2\<lparr>tick := n2,
     csv_files := (csv_files w2)(''data/csv/assets.csv'' \<mapsto>
        header_row asset_cols # map asset_row asts),
     stdout := stdout w2 @ [Info ''Generating vulnerabilities.csv...'']\<rparr>"
  have j3: "J (rand w3)" using j by (simp add: w3_def w2_def w1_def)
  obtain vulns n3 where
    vulns: "mapM_io (gen_vulnerability (map asset_id asts)) [1..<501] w3 =
        (Inr vulns, w3\<lparr>tick := n3\<rparr>)"
    and lvulns: "length vulns = 500"
    and vok: "\<forall>v\<in>set vulns. vulnerability_ok J (map asset_id asts) v"
    using pure_genD [OF pure_mapM [of "[1..<501]" J "gen_vulnerability (map asset_id asts)",
          OF pure_gen_vulnerability [OF ne1]] j3]
    by auto
  define w4 where "w4 = w3\<lparr>tick := n3,
     csv_files := (csv_files w3)(''data/csv/vulnerabilities.csv'' \<mapsto>
        header_row vulnerability_cols # map vulnerability_row vulns),
     stdout := stdout w3 @ [Info ''Generating incidents.csv...'']\<rparr>"
  have j4: "J (rand w4)" using j by (simp add: w4_def w3_def w2_def w1_def)
  obtain incs n4 where
    incs: "mapM_io (gen_incident (map asset_id asts) (map actor_id tas)) [1..<301] w4 =
        (Inr incs, w4\<lparr>tick := n4\<rparr>)"
    and lincs: "length incs = 300"
    and iok: "\<forall>i\<in>set incs. incident_ok J (map asset_id asts) (map actor_id tas) i"
    using pure_genD [OF pure_mapM [of "[1..<301]" J
          "gen_incident (map asset_id asts) (map actor_id tas)",
          OF pure_gen_incident [OF ne1 ne2]] j4]
    by auto
  define w5 where "w5 = w4\<lparr>tick := n4,
     csv_files := (csv_files w4)(''data/csv/incidents.csv'' \<mapsto>
        header_row incident_cols # map incident_row incs),
     stdout := stdout w4 @ [Info ''Generating security_controls.csv...'']\<rparr>"
  have j5: "J (rand w5)" using j by (simp add: w5_def w4_def w3_def w2_def w1_def)
  obtain ctls n5 where ctls: "mapM_io gen_control [1..<101] w5 = (Inr ctls, w5\<lparr>tick := n5\<rparr>)"
    and lctls: "length ctls = 100"
    using pure_genD [OF pure_mapM [of "[1..<101]" J gen_control, OF pure_gen_control] j5]
    by auto
  let ?ds = "\<lparr>threat_actors = tas, assets = asts, vulnerabilities = vulns, incidents = incs,
        controls = ctls\<rparr>"
  have ok: "dataset_ok J ?ds"
    using ltas lasts lvulns lincs lctls vok iok by (simp add: dataset_ok_def)
  have run: "generate_data w =
       (Inr ?ds, w\<lparr>tick := n5, csv_files := generated_files ?ds (csv_files w),
          stdout := stdout w @ generated_output ?ds\<rparr>)"
    using tas asts vulns incs ctls
    unfolding w1_def w2_def w3_def w4_def w5_def
    by (simp add: generate_data_def then_io_def bind_io_def print_def to_csv_def return_io_def
        generated_files_def generated_output_def del: upt_rec_numeral)
  with ok show ?thesis by blast
qed

lemma remediated_region:
  assumes "pool \<noteq> []"
  shows "{u. 0 \<le> u \<and> u < 1 \<and>
           (\<exists>v w'. gen_vulnerability pool i (w\<lparr>rand := (rand w)(tick w + 8 := u)\<rparr>) = (Inr v, w')
              \<and> remediated_date v \<noteq> None)} = {2 / 5 <..< 1}"
  using assms
  by (auto simp add: gen_vulnerability_def Let_def bind_io_def choice_def random_random_def
      return_io_def uniform_def now_def randint_def raise_io_def fake_def maybe_def
      vuln_categories_def vuln_statuses_def eval_nat_numeral frac_eq)

lemma resolved_region:
  assumes "asset_pool \<noteq> []" "actor_pool \<noteq> []"
  shows "{u. 0 \<le> u \<and> u < 1 \<and>
            (\<exists>i w'. gen_incident asset_pool actor_pool k (w\<lparr>rand := (rand w)(tick w + 6 := u)\<rparr>) = (Inr i, w')
               \<and> resolved_at i \<noteq> None)} = {3 / 10 <..< 1}"
  using assms
  by (auto simp add: gen_incident_def Let_def bind_io_def choice_def random_random_def
      return_io_def now_def randint_def raise_io_def maybe_def incident_types_def
      attack_vectors_def kill_chain_phases_def eval_nat_numeral frac_eq)

text \<open>The sample world draws one half every time.\<close>

lemma sample_draws: "(\<lambda>r. r = (\<lambda>n. 1 / 2)) (rand sample_world)"
  by (simp add: sample_world_def)

lemma sample_dataset:
  "\<exists>ds w'. generate_data sample_world = (Inr ds, w') \<and>
     dataset_ok (\<lambda>r. r = (\<lambda>n. 1 / 2)) ds"
  using generate_data_result [of "\<lambda>r. r = (\<lambda>n. 1 / 2)" sample_world, OF sample_draws] by blast

lemma sample_vulnerability:
  assumes "vulnerability_ok (\<lambda>r. r = (\<lambda>n. 1 / 2)) pool v"
  shows "cvss_score v = 11 / 2 \<and> severity_label v = ''Medium'' \<and>
     (\<exists>d. remediated_date v = Some d \<and> discovered_date v < d) \<and> vuln_asset_id v \<in> set pool"
proof -
  have f: "frac (1 / 2 :: real) = 1 / 2" by (simp add: frac_eq)
  have "round1 (1 + 9 * (1 / 2)) = 11 / 2"
    by (simp add: round1_def round_half_even_def Let_def)
  then have c: "cvss_score v = 11 / 2" using assms by (auto simp: vulnerability_ok_def f)
  then have s: "severity_label v = ''Medium''"
    using assms by (simp add: vulnerability_ok_def severity_of_def)
  have "remediated_date v \<noteq> None"
    using assms by (auto simp: vulnerability_ok_def forced_def f)
  then obtain d where d: "remediated_date v = Some d" by auto
  then have "discovered_date v < d"
    using assms by (auto simp: vulnerability_ok_def later_within_def)
  with c s d assms show ?thesis by (auto simp: vulnerability_ok_def)
qed

lemma sample_incident:
  assumes "incident_ok (\<lambda>r. r = (\<lambda>n. 1 / 2)) ap tp i"
  shows "(\<exists>d. resolved_at i = Some d \<and> detected_at i < d) \<and> inc_asset_id i \<in> set ap \<and>
     threat_actor_id i \<in> set tp"
proof -
  have f: "frac (1 / 2 :: real) = 1 / 2" by (simp add: frac_eq)
  have "resolved_at i \<noteq> None"
    using assms by (auto simp: incident_ok_def forced_def f)
  then obtain d where d: "resolved_at i = Some d" by auto
  then have "detected_at i < d"
    using assms by (auto simp: incident_ok_def later_within_def)
  with d assms show ?thesis by (auto simp: incident_ok_def)
qed

section \<open>Properties of the generator\<close>

text \<open>
  \<^bold>\<open>C1.\<close> Whatever the random generator, Faker and the clock give, the generator runs to
  its end, and the severity label of every vulnerability it has generated is the one the
  fixed thresholds assign to the record's score: Critical from 9.0, High from 7.0, Medium
  from 4.0, Low below.
\<close>

theorem severity_label_from_score:
  "\<exists>ds w'. generate_data w = (Inr ds, w') \<and>
     (\<forall>v\<in>set (vulnerabilities ds).
        severity_label v =
          (if cvss_score v \<ge> 9.0 then ''Critical''
           else if cvss_score v \<ge> 7.0 then ''High''
           else if cvss_score v \<ge> 4.0 then ''Medium''
           else ''Low''))"
proof -
  obtain ds n where run: "generate_data w =
       (Inr ds, w\<lparr>tick := n, csv_files := generated_files ds (csv_files w),
          stdout := stdout w @ generated_output ds\<rparr>)" and ok: "dataset_ok (\<lambda>r. True) ds"
    using generate_data_result [of "\<lambda>r. True" w] by blast
  have "\<forall>v\<in>set (vulnerabilities ds). severity_label v = severity_of (cvss_score v)"
    using ok by (simp add: dataset_ok_def vulnerability_ok_def)
  then show ?thesis using run by (auto simp: severity_of_def)
qed

text \<open>In the sample world the first vulnerability has the score 5.5, hence the label
  Medium.\<close>

theorem severity_label_from_score_witness:
  "\<exists>ds w'. generate_data sample_world = (Inr ds, w') \<and> vulnerabilities ds \<noteq> [] \<and>
     cvss_score (hd (vulnerabilities ds)) = 11 / 2 \<and>
     severity_label (hd (vulnerabilities ds)) = ''Medium''"
proof -
  obtain ds w' where run: "generate_data sample_world = (Inr ds, w')"
    and sev: "\<forall>v\<in>set (vulnerabilities ds).
        severity_label v =
          (if cvss_score v \<ge> 9.0 then ''Critical''
           else if cvss_score v \<ge> 7.0 then ''High''
           else if cvss_score v \<ge> 4.0 then ''Medium''
           else ''Low'')"
    using severity_label_from_score [of sample_world] by blast
  have ok: "dataset_ok (\<lambda>r. r = (\<lambda>n. 1 / 2)) ds" using sample_dataset run by auto
  then have ne: "vulnerabilities ds \<noteq> []" by (auto simp: dataset_ok_def)
  then have mem: "hd (vulnerabilities ds) \<in> set (vulnerabilities ds)" by simp
  then have "vulnerability_ok (\<lambda>r. r = (\<lambda>n. 1 / 2)) (map asset_id (assets ds))
      (hd (vulnerabilities ds))"
    using ok by (simp add: dataset_ok_def)
  then have score: "cvss_score (hd (vulnerabilities ds)) = 11 / 2"
    using sample_vulnerability by blast
  have "severity_label (hd (vulnerabilities ds)) = ''Medium''"
    using sev mem score by simp
  with run ne score show ?thesis by blast
qed

text \<open>
  \<^bold>\<open>C3.\<close> Referential closure: the asset of every generated vulnerability and of every
  generated incident is the identifier of a generated asset, and the threat actor of every
  generated incident is the identifier of a generated threat actor. (The pools are the
  lists built by the two earlier loops.)
\<close>

theorem references_resolve:
  "\<exists>ds w'. generate_data w = (Inr ds, w') \<and>
     (\<forall>v\<in>set (vulnerabilities ds). \<exists>a\<in>set (assets ds). vuln_asset_id v = asset_id a) \<and>
     (\<forall>i\<in>set (incidents ds).
        (\<exists>a\<in>set (assets ds). inc_asset_id i = asset_id a) \<and>
        (\<exists>t\<in>set (threat_actors ds). threat_actor_id i = actor_id t))"
proof -
  obtain ds n where run: "generate_data w =
       (Inr ds, w\<lparr>tick := n, csv_files := generated_files ds (csv_files w),
          stdout := stdout w @ generated_output ds\<rparr>)" and ok: "dataset_ok (\<lambda>r. True) ds"
    using generate_data_result [of "\<lambda>r. True" w] by blast
  have v: "\<forall>v\<in>set (vulnerabilities ds). vuln_asset_id v \<in> set (map asset_id (assets ds))"
    using ok by (simp add: dataset_ok_def vulnerability_ok_def)
  have i: "\<forall>i\<in>set (incidents ds). inc_asset_id i \<in> set (map asset_id (assets ds)) \<and>
       threat_actor_id i \<in> set (map actor_id (threat_actors ds))"
    using ok by (simp add: dataset_ok_def incident_ok_def)
  show ?thesis using run v i by (auto simp: image_iff)
qed

theorem references_resolve_witness:
  "\<exists>ds w'. generate_data sample_world = (Inr ds, w') \<and>
     vulnerabilities ds \<noteq> [] \<and> incidents ds \<noteq> [] \<and>
     (\<exists>a\<in>set (assets ds). vuln_asset_id (hd (vulnerabilities ds)) = asset_id a) \<and>
     (\<exists>a\<in>set (assets ds). inc_asset_id (hd (incidents ds)) = asset_id a) \<and>
     (\<exists>t\<in>set (threat_actors ds). threat_actor_id (hd (incidents ds)) = actor_id t)"
proof -
  obtain ds w' where run: "generate_data sample_world = (Inr ds, w')"
    and v: "\<forall>v\<in>set (vulnerabilities ds). \<exists>a\<in>set (assets ds). vuln_asset_id v = asset_id a"
    and i: "\<forall>i\<in>set (incidents ds).
        (\<exists>a\<in>set (assets ds). inc_asset_id i = asset_id a) \<and>
        (\<exists>t\<in>set (threat_actors ds). threat_actor_id i = actor_id t)"
    using references_resolve [of sample_world] by blast
  have "dataset_ok (\<lambda>r. r = (\<lambda>n. 1 / 2)) ds" using sample_dataset run by auto
  then have ne: "vulnerabilities ds \<noteq> []" "incidents ds \<noteq> []" by (auto simp: dataset_ok_def)
  then have "hd (vulnerabilities ds) \<in> set (vulnerabilities ds)"
    "hd (incidents ds) \<in> set (incidents ds)" by simp_all
  with v i ne run show ?thesis by blast
qed

text \<open>
  \<^bold>\<open>C7.\<close> The remediated date of a generated vulnerability, when there is one, is from 1
  to 120 days after the discovered date, and the resolved time of a generated incident,
  when there is one, from 1 to 720 hours after the detected time: strictly later. Whether
  the optional value is there is decided by one draw \<open>u\<close> of \<open>random.random()\<close>, the ninth
  oracle call of a vulnerability and the seventh of an incident: with everything else
  fixed, the values of \<open>u\<close> in \<open>[0, 1)\<close> for which it is there are those above 0.4 for a
  vulnerability and those above 0.3 for an incident, intervals of length 0.6 and 0.7, which
  is the probability of the event for a uniform draw.
\<close>

theorem optional_dates_later:
  "(\<exists>ds w'. generate_data w = (Inr ds, w') \<and>
      (\<forall>v\<in>set (vulnerabilities ds). \<forall>d. remediated_date v = Some d \<longrightarrow>
          discovered_date v < d \<and> d \<le> discovered_date v + 120) \<and>
      (\<forall>i\<in>set (incidents ds). \<forall>d. resolved_at i = Some d \<longrightarrow>
          detected_at i < d \<and> d \<le> detected_at i + 3600 * 720)) \<and>
   (pool \<noteq> [] \<longrightarrow>
      {u. 0 \<le> u \<and> u < 1 \<and>
          (\<exists>v w'. gen_vulnerability pool k (w\<lparr>rand := (rand w)(tick w + 8 := u)\<rparr>) = (Inr v, w') \<and>
             remediated_date v \<noteq> None)} = {2 / 5 <..< 1}) \<and>
   (pool \<noteq> [] \<and> actor_pool \<noteq> [] \<longrightarrow>
      {u. 0 \<le> u \<and> u < 1 \<and>
          (\<exists>i w'. gen_incident pool actor_pool k (w\<lparr>rand := (rand w)(tick w + 6 := u)\<rparr>) = (Inr i, w') \<and>
             resolved_at i \<noteq> None)} = {3 / 10 <..< 1})"
proof -
  obtain ds n where run: "generate_data w =
       (Inr ds, w\<lparr>tick := n, csv_files := generated_files ds (csv_files w),
          stdout := stdout w @ generated_output ds\<rparr>)" and ok: "dataset_ok (\<lambda>r. True) ds"
    using generate_data_result [of "\<lambda>r. True" w] by blast
  have v: "\<forall>v\<in>set (vulnerabilities ds). \<forall>d. remediated_date v = Some d \<longrightarrow>
          discovered_date v < d \<and> d \<le> discovered_date v + 120"
    using ok by (auto simp: dataset_ok_def vulnerability_ok_def later_within_def)
  have i: "\<forall>i\<in>set (incidents ds). \<forall>d. resolved_at i = Some d \<longrightarrow>
          detected_at i < d \<and> d \<le> detected_at i + 3600 * 720"
    using ok by (auto simp: dataset_ok_def incident_ok_def later_within_def)
  show ?thesis
    using run v i remediated_region [of pool k w] resolved_region [of pool actor_pool k w]
    by blast
qed

text \<open>In the sample world every draw is one half: the first vulnerability and the first
  incident have their optional date, strictly later; and for a one-element pool the draw
  0.5 gives the optional value while the draw 0.2 does not.\<close>

theorem optional_dates_later_witness:
  "(\<exists>ds w'. generate_data sample_world = (Inr ds, w') \<and>
      (\<exists>d. remediated_date (hd (vulnerabilities ds)) = Some d \<and>
           discovered_date (hd (vulnerabilities ds)) < d) \<and>
      (\<exists>d. resolved_at (hd (incidents ds)) = Some d \<and> detected_at (hd (incidents ds)) < d)) \<and>
   [''AST0001''] \<noteq> [] \<and> [''TA001''] \<noteq> [] \<and>
   (\<exists>v w'. gen_vulnerability [''AST0001''] 1
        (sample_world\<lparr>rand := (rand sample_world)(tick sample_world + 8 := 1 / 2)\<rparr>) = (Inr v, w') \<and>
      remediated_date v \<noteq> None) \<and>
   \<not> (\<exists>v w'. gen_vulnerability [''AST0001''] 1
        (sample_world\<lparr>rand := (rand sample_world)(tick sample_world + 8 := 1 / 5)\<rparr>) = (Inr v, w') \<and>
      remediated_date v \<noteq> None) \<and>
   (\<exists>i w'. gen_incident [''AST0001''] [''TA001''] 1
        (sample_world\<lparr>rand := (rand sample_world)(tick sample_world + 6 := 1 / 2)\<rparr>) = (Inr i, w') \<and>
      resolved_at i \<noteq> None)"
proof -
  note inst = optional_dates_later [of sample_world "[''AST0001'']" 1 "[''TA001'']"]
  obtain ds w' where run: "generate_data sample_world = (Inr ds, w')"
    and v: "\<forall>v\<in>set (vulnerabilities ds). \<forall>d. remediated_date v = Some d \<longrightarrow>
          discovered_date v < d \<and> d \<le> discovered_date v + 120"
    and i: "\<forall>i\<in>set (incidents ds). \<forall>d. resolved_at i = Some d \<longrightarrow>
          detected_at i < d \<and> d \<le> detected_at i + 3600 * 720"
    using inst by blast
  have ok: "dataset_ok (\<lambda>r. r = (\<lambda>n. 1 / 2)) ds" using sample_dataset run by auto
  then have ne: "vulnerabilities ds \<noteq> []" "incidents ds \<noteq> []" by (auto simp: dataset_ok_def)
  then have mem: "hd (vulnerabilities ds) \<in> set (vulnerabilities ds)"
    "hd (incidents ds) \<in> set (incidents ds)" by simp_all
  obtain d where d: "remediated_date (hd (vulnerabilities ds)) = Some d"
    using sample_vulnerability ok mem(1) unfolding dataset_ok_def by blast
  obtain d' where d': "resolved_at (hd (incidents ds)) = Some d'"
    using sample_incident ok mem(2) unfolding dataset_ok_def by blast
  have first: "\<exists>ds w'. generate_data sample_world = (Inr ds, w') \<and>
      (\<exists>d. remediated_date (hd (vulnerabilities ds)) = Some d \<and>
           discovered_date (hd (vulnerabilities ds)) < d) \<and>
      (\<exists>d. resolved_at (hd (incidents ds)) = Some d \<and> detected_at (hd (incidents ds)) < d)"
    using run v i mem d d' by blast
  have rv: "{u. 0 \<le> u \<and> u < 1 \<and>
          (\<exists>v w'. gen_vulnerability [''AST0001''] 1
             (sample_world\<lparr>rand := (rand sample_world)(tick sample_world + 8 := u)\<rparr>) = (Inr v, w') \<and>
             remediated_date v \<noteq> None)} = {2 / 5 <..< 1}"
    using inst by simp
  have ri: "{u. 0 \<le> u \<and> u < 1 \<and>
          (\<exists>i w'. gen_incident [''AST0001''] [''TA001''] 1
             (sample_world\<lparr>rand := (rand sample_world)(tick sample_world + 6 := u)\<rparr>) = (Inr i, w') \<and>
             resolved_at i \<noteq> None)} = {3 / 10 <..< 1}"
    using inst by simp
  have "(1 / 2 :: real) \<in> {2 / 5 <..< 1}" "(1 / 5 :: real) \<notin> {2 / 5 <..< 1}"
    "(1 / 2 :: real) \<in> {3 / 10 <..< 1}" by simp_all
  then have a: "(1 / 2 :: real) \<in> {u. 0 \<le> u \<and> u < 1 \<and>
          (\<exists>v w'. gen_vulnerability [''AST0001''] 1
             (sample_world\<lparr>rand := (rand sample_world)(tick sample_world + 8 := u)\<rparr>) = (Inr v, w') \<and>
             remediated_date v \<noteq> None)}"
    and b: "(1 / 5 :: real) \<notin> {u. 0 \<le> u \<and> u < 1 \<and>
          (\<exists>v w'. gen_vulnerability [''AST0001''] 1
             (sample_world\<lparr>rand := (rand sample_world)(tick sample_world + 8 := u)\<rparr>) = (Inr v, w') \<and>
             remediated_date v \<noteq> None)}"
    and c: "(1 / 2 :: real) \<in> {u. 0 \<le> u \<and> u < 1 \<and>
          (\<exists>i w'. gen_incident [''AST0001''] [''TA001''] 1
             (sample_world\<lparr>rand := (rand sample_world)(tick sample_world + 6 := u)\<rparr>) = (Inr i, w') \<and>
             resolved_at i \<noteq> None)}"
    unfolding rv ri by simp_all
  from a b c first show ?thesis by simp
qed

section \<open>The log only grows\<close>

lemma grows_refl: "grows w w"
  by (simp add: grows_def)

lemma grows_trans: "grows a b \<Longrightarrow> grows b c \<Longrightarrow> grows a c"
  unfolding grows_def
  apply (elim conjE exE)
  subgoal for new new'
    apply (rule conjI)
     apply (rule exI [of _ "new @ new'"])
     apply auto
    done
  done

lemma grows_same:
  "csv_files w' = csv_files w \<Longrightarrow> sql_files w' = sql_files w \<Longrightarrow> faults w' = faults w \<Longrightarrow>
   sql_effect w' = sql_effect w \<Longrightarrow> grows w w'"
  by (simp add: grows_def log_rows_def)

lemma keeps_same:
  "(\<And>w. csv_files (snd (m w)) = csv_files w \<and> sql_files (snd (m w)) = sql_files w \<and>
      faults (snd (m w)) = faults w \<and> sql_effect (snd (m w)) = sql_effect w) \<Longrightarrow> keeps grows m"
  by (simp add: keeps_def grows_same)

text \<open>The rules of \<open>keeps\<close>, for any reflexive and transitive relation.\<close>

lemma keeps_gen_return: "reflp R \<Longrightarrow> keeps R (return_io x)"
  by (simp add: keeps_def return_io_def reflpD)

lemma keeps_gen_raise: "reflp R \<Longrightarrow> keeps R (raise_io e)"
  by (simp add: keeps_def raise_io_def reflpD)

lemma keeps_gen_bind:
  assumes trans: "transp R"
    and m: "keeps R m" and f: "\<And>x. keeps R (f x)"
  shows "keeps R (bind_io m f)"
  unfolding keeps_def
proof
  fix w
  have mw: "R w (snd (m w))" using m by (simp add: keeps_def)
  show "R w (snd (bind_io m f w))"
  proof (cases "m w")
    case (Pair r w')
    show ?thesis
    proof (cases r)
      case (Inl e)
      with Pair mw show ?thesis by (simp add: bind_io_def)
    next
      case (Inr x)
      have "R w' (snd (f x w'))" using f by (simp add: keeps_def)
      with Pair Inr mw transpD [OF trans, of w w' "snd (f x w')"] show ?thesis
        by (simp add: bind_io_def)
    qed
  qed
qed

lemma keeps_gen_then:
  "transp R \<Longrightarrow> keeps R m \<Longrightarrow> keeps R k \<Longrightarrow> keeps R (then_io m k)"
  unfolding then_io_def by (rule keeps_gen_bind)

lemma keeps_gen_catch:
  assumes trans: "transp R"
    and m: "keeps R m" and h: "\<And>e. keeps R (h e)"
  shows "keeps R (catch_io m h)"
  unfolding keeps_def
proof
  fix w
  have mw: "R w (snd (m w))" using m by (simp add: keeps_def)
  show "R w (snd (catch_io m h w))"
  proof (cases "m w")
    case (Pair r w')
    show ?thesis
    proof (cases r)
      case (Inr x)
      with Pair mw show ?thesis by (simp add: catch_io_def)
    next
      case (Inl e)
      have "R w' (snd (h e w'))" using h by (simp add: keeps_def)
      with Pair Inl mw transpD [OF trans, of w w' "snd (h e w')"] show ?thesis
        by (simp add: catch_io_def)
    qed
  qed
qed

lemma keeps_gen_iter:
  assumes refl: "reflp R" and trans: "transp R"
    and f: "\<And>x. keeps R (f x)"
  shows "keeps R (iter_io f xs)"
proof (induction xs)
  case Nil
  show ?case by (simp add: keeps_gen_return refl)
next
  case (Cons x xs)
  show ?case
    unfolding iter_io.simps
    by (rule keeps_gen_then [OF trans f Cons.IH])
qed

lemma grows_reflp: "reflp grows"
  by (rule reflpI) (rule grows_refl)

lemma grows_transp: "transp grows"
  by (rule transpI) (rule grows_trans)

lemmas keeps_return = keeps_gen_return [OF grows_reflp]
lemmas keeps_raise = keeps_gen_raise [OF grows_reflp]
lemmas keeps_bind = keeps_gen_bind [OF grows_transp]
lemmas keeps_then = keeps_gen_then [OF grows_transp]
lemmas keeps_catch = keeps_gen_catch [OF grows_transp]
lemmas keeps_iter = keeps_gen_iter [OF grows_reflp grows_transp]

lemma keeps_print: "keeps grows (print m)"
  by (rule keeps_same) (simp add: print_def)

lemma keeps_now: "keeps grows now"
  by (rule keeps_same) (simp add: now_def)

lemma keeps_execute: "keeps grows (execute st)"
  by (rule keeps_same) (simp add: execute_def split: option.splits)

lemma keeps_read_sql: "keeps grows (read_sql p)"
  by (rule keeps_same) (simp add: read_sql_def split: option.splits)

lemma keeps_read_csv: "keeps grows (read_csv p)"
  by (rule keeps_same) (simp add: read_csv_def split: option.splits list.splits)

lemma keeps_connect: "keeps grows connect_snowflake"
  unfolding connect_snowflake_def
  by (rule keeps_then [OF keeps_print], rule keeps_same) (simp split: option.splits)

text \<open>What \<open>log_pipeline\<close> does when the status argument is omitted.\<close>

lemma log_pipeline_default:
  "log_pipeline feature operation l c None w =
     (Inr (),
      w\<lparr>tick := Suc (tick w),
        csv_files := (csv_files w)(PIPELINE_LOG \<mapsto>
          log_rows w @ [log_entry (clock w (tick w)) feature operation l c ''SUCCESS'']),
        stdout := stdout w @ [Logged feature operation l c]\<rparr>)"
  by (simp add: log_pipeline_def bind_io_def now_def writerow_def fieldnames_def then_io_def
      append_row_def print_def log_entry_def log_rows_def split: option.splits)

lemma keeps_log_pipeline: "keeps grows (log_pipeline feature operation l c None)"
  unfolding keeps_def
proof
  fix w
  have "log_rows (snd (log_pipeline feature operation l c None w)) =
      log_rows w @ [log_entry (clock w (tick w)) feature operation l c ''SUCCESS'']"
    by (simp add: log_pipeline_default log_rows_def)
  moreover have "csv_files (snd (log_pipeline feature operation l c None w)) PIPELINE_LOG \<noteq> None"
    by (simp add: log_pipeline_default)
  moreover have "\<forall>p. p \<noteq> PIPELINE_LOG \<longrightarrow>
      csv_files (snd (log_pipeline feature operation l c None w)) p = csv_files w p"
    by (simp add: log_pipeline_default)
  moreover have "sql_files (snd (log_pipeline feature operation l c None w)) = sql_files w"
    "faults (snd (log_pipeline feature operation l c None w)) = faults w"
    "sql_effect (snd (log_pipeline feature operation l c None w)) = sql_effect w"
    by (simp_all add: log_pipeline_default)
  ultimately show "grows w (snd (log_pipeline feature operation l c None w))"
    unfolding grows_def by fastforce
qed

lemma keeps_run_statement: "keeps grows (run_statement s)"
  by (simp add: run_statement_def keeps_execute keeps_return)

lemma keeps_setup_database: "keeps grows setup_database"
  unfolding setup_database_def
  by (intro keeps_then keeps_catch keeps_bind keeps_iter keeps_print keeps_read_sql
      keeps_run_statement keeps_raise)

lemma keeps_insert_batch: "keeps grows (insert_batch t cols rows b i)"
  by (simp add: insert_batch_def Let_def keeps_execute)

lemma keeps_load_table: "keeps grows (load_table p)"
  unfolding keeps_def
proof
  fix w
  obtain f t where p: "p = (f, t)" by (cases p)
  have present: "keeps grows (bind_io now (\<lambda>start_time.
        bind_io (read_csv f) (\<lambda>(columns, rows).
        let row_count = length rows; batch_size = 100 in
        then_io (execute (DeleteFrom t)) (
        then_io (iter_io (insert_batch t columns rows batch_size)
                   (batch_starts (length rows) batch_size)) (
        bind_io now (\<lambda>end_time.
        let latency_ms = trunc ((end_time - start_time) * 1000) in
        then_io (log_pipeline t ''DATA_LOAD'' latency_ms (int row_count) None) (
        print (Loaded t row_count latency_ms))))))))"
    unfolding Let_def
  proof (rule keeps_bind [OF keeps_now], rule keeps_bind [OF keeps_read_csv])
    fix start_time :: real and x :: "row \<times> row list"
    obtain columns rows where x: "x = (columns, rows)" by (cases x)
    show "keeps grows
          (case x of
           (columns, rows) \<Rightarrow>
             then_io (execute (DeleteFrom t))
              (then_io (iter_io (insert_batch t columns rows 100) (batch_starts (length rows) 100))
                (bind_io now
                  (\<lambda>end_time.
                      then_io
                       (log_pipeline t ''DATA_LOAD'' (trunc ((end_time - start_time) * 1000))
                         (int (length rows)) None)
                       (print (Loaded t (length rows) (trunc ((end_time - start_time) * 1000))))))))"
      unfolding x prod.case
      by (intro keeps_then keeps_bind keeps_now keeps_execute keeps_iter keeps_insert_batch
          keeps_log_pipeline keeps_print)
  qed
  show "grows w (snd (load_table p w))"
    using present keeps_print [of "FileNotFound f"]
    by (simp add: load_table_def p keeps_def)
qed

lemma keeps_ingest_data: "keeps grows ingest_data"
  unfolding ingest_data_def
  by (intro keeps_then keeps_catch keeps_iter keeps_print keeps_load_table keeps_raise)

lemma keeps_run_query: "keeps grows (run_query s)"
  unfolding run_query_def Let_def
  by (auto intro!: keeps_then keeps_catch keeps_bind keeps_now keeps_execute keeps_print
      keeps_log_pipeline keeps_return)

lemma keeps_create_analytics: "keeps grows create_analytics"
  unfolding create_analytics_def
  by (intro keeps_then keeps_catch keeps_bind keeps_iter keeps_print keeps_read_sql
      keeps_run_query keeps_raise)

lemma keeps_select_count: "keeps grows (select_count t)"
  unfolding select_count_def
  by (rule keeps_then [OF keeps_execute], rule keeps_same) simp

lemma keeps_count_tables: "keeps grows (count_tables ts acc)"
  by (induction ts arbitrary: acc)
    (auto intro!: keeps_return keeps_bind keeps_then keeps_print keeps_select_count)

lemma keeps_verify_data: "keeps grows verify_data"
  unfolding verify_data_def
  by (intro keeps_then keeps_catch keeps_bind keeps_print keeps_count_tables
      keeps_log_pipeline)

lemma keeps_pipeline: "keeps grows pipeline"
  unfolding pipeline_def load_stages_def
  by (intro keeps_then keeps_connect keeps_setup_database keeps_ingest_data
      keeps_create_analytics keeps_verify_data keeps_print)

text \<open>The log before and after a run of \<open>main\<close>.\<close>

lemma main_grows:
  "\<exists>new. log_rows (snd (main w)) = log_start w @ new \<and>
     (\<forall>r\<in>set new. \<exists>ts f operation l c. r = log_entry ts f operation l c ''SUCCESS'') \<and>
     csv_files (snd (main w)) PIPELINE_LOG \<noteq> None"
proof -
  define w1 where "w1 = snd (init_pipeline_log
      (w\<lparr>stdout := stdout w @ [Info ''CS 5542 Lab 5 - Snowflake Data Ingestion Pipeline'']\<rparr>))"
  have start: "log_rows w1 = log_start w" and there: "csv_files w1 PIPELINE_LOG \<noteq> None"
    by (auto simp: w1_def init_pipeline_log_def log_start_def log_rows_def)
  have g: "grows w1 (snd (pipeline w1))"
    using keeps_pipeline by (simp add: keeps_def)
  have m: "log_rows (snd (main w)) = log_rows (snd (pipeline w1))
      \<and> (csv_files (snd (main w)) PIPELINE_LOG = csv_files (snd (pipeline w1)) PIPELINE_LOG)"
    by (auto simp: main_def then_io_def bind_io_def print_def w1_def init_pipeline_log_def
        log_rows_def split: prod.splits sum.splits)
  show ?thesis using g start there m unfolding grows_def by auto
qed

section \<open>The stages of the loader, step by step\<close>




lemma main_started:
  "main w = (case pipeline (started w) of
        (Inr u, w') \<Rightarrow> (0, w')
      | (Inl e, w') \<Rightarrow> (1, w'\<lparr>stdout := stdout w' @ [PipelineFailed e]\<rparr>))"
  by (simp add: main_def started_def then_io_def bind_io_def print_def init_pipeline_log_def)


text \<open>Frames: what the steps before the log entry leave alone.\<close>

lemma iter_io_csv:
  assumes step: "\<And>x w. csv_files (snd (f x w)) = csv_files w"
  shows "csv_files (snd (iter_io f xs w)) = csv_files w"
proof (induction xs arbitrary: w)
  case Nil
  show ?case by (simp add: return_io_def)
next
  case (Cons x xs)
  show ?case
  proof (cases "f x w")
    case (Pair r w1)
    have w1: "csv_files w1 = csv_files w" using step [of x w] Pair by simp
    show ?thesis
    proof (cases r)
      case (Inl e)
      with Pair w1 show ?thesis by (simp add: then_io_def bind_io_def)
    next
      case (Inr u)
      with Pair w1 Cons.IH [of w1] show ?thesis by (simp add: then_io_def bind_io_def)
    qed
  qed
qed

lemma insert_batch_csv: "csv_files (snd (insert_batch t cols rows b x w)) = csv_files w"
  by (simp add: insert_batch_def Let_def execute_def split: option.splits)

lemma insert_batches_csv:
  "iter_io (insert_batch t cols rows b) xs w = (r, w') \<Longrightarrow> csv_files w' = csv_files w"
  using iter_io_csv [of "insert_batch t cols rows b" xs w, OF insert_batch_csv] by simp

lemma load_table_raises_log:
  assumes "load_table p w = (Inl e, w')"
  shows "csv_files w' = csv_files w"
proof -
  obtain f t where p: "p = (f, t)" by (cases p)
  show ?thesis
    using assms unfolding p load_table_def
    by (auto simp: bind_io_def then_io_def now_def read_csv_def execute_def log_pipeline_default
        print_def Let_def split: if_splits option.splits list.splits prod.splits sum.splits
        dest!: insert_batches_csv)
qed

lemma count_tables_csv:
  "count_tables ts acc w = (r, w') \<Longrightarrow> csv_files w' = csv_files w"
proof (induction ts arbitrary: acc w)
  case Nil
  then show ?case by (simp add: return_io_def)
next
  case (Cons t ts)
  show ?case
  proof (cases "faults w (tick w)")
    case None
    then have "count_tables ts (acc + int (length (tables w t)))
        (w\<lparr>tick := Suc (tick w), stdout := stdout w @
            [TableCount (0 < int (length (tables w t))) t (int (length (tables w t)))]\<rparr>) = (r, w')"
      using Cons.prems
      by (simp add: then_io_def bind_io_def select_count_def execute_def print_def)
    from Cons.IH [OF this] show ?thesis by simp
  next
    case (Some e)
    then show ?thesis
      using Cons.prems by (auto simp: then_io_def bind_io_def select_count_def execute_def)
  qed
qed

lemma verify_data_fails:
  assumes "count_tables verified_tables 0
      (w\<lparr>stdout := stdout w @ [Info ''[5/5] Verifying data load...'']\<rparr>) = (Inl e, w2)"
  shows "verify_data w = (Inr (), w2\<lparr>stdout := stdout w2 @ [VerificationFailed e]\<rparr>)
     \<and> csv_files w2 = csv_files w"
  using assms count_tables_csv [OF assms]
  by (simp add: verify_data_def then_io_def bind_io_def catch_io_def print_def)


lemma run_query_skips:
  "clean s \<noteq> [] \<Longrightarrow> faults w (Suc (tick w)) = Some e \<Longrightarrow>
   run_query s w = (Inr (), w\<lparr>tick := Suc (Suc (tick w)), stdout := stdout w @ [QuerySkipped e]\<rparr>)"
  by (simp add: run_query_def Let_def catch_io_def bind_io_def then_io_def now_def execute_def
      print_def)

lemma run_query_returns: "fst (run_query s w) = Inr ()"
  by (simp add: run_query_def Let_def catch_io_def bind_io_def then_io_def now_def execute_def
      print_def return_io_def log_pipeline_default split: option.splits)

lemma run_queries_return: "fst (iter_io run_query ss w) = Inr ()"
proof (induction ss arbitrary: w)
  case Nil
  show ?case by (simp add: return_io_def)
next
  case (Cons s ss)
  obtain w' where "run_query s w = (Inr (), w')"
    using run_query_returns [of s w] by (cases "run_query s w") auto
  then show ?case using Cons.IH [of w'] by (simp add: then_io_def bind_io_def)
qed

lemma create_analytics_returns:
  "sql_files w ''sql/04_queries.sql'' \<noteq> None \<Longrightarrow> fst (create_analytics w) = Inr ()"
proof -
  assume "sql_files w ''sql/04_queries.sql'' \<noteq> None"
  then obtain src where t: "sql_files w ''sql/04_queries.sql'' = Some src" by auto
  let ?w = "w\<lparr>stdout := stdout w @ [Info ''[4/5] Creating analytics queries and views...'']\<rparr>"
  obtain w' where "iter_io run_query (split_on (CHR '';'') src) ?w = (Inr (), w')"
    using run_queries_return [of "split_on (CHR '';'') src" ?w]
    by (cases "iter_io run_query (split_on (CHR '';'') src) ?w") auto
  then show ?thesis
    using t by (simp add: create_analytics_def then_io_def bind_io_def catch_io_def print_def
        read_sql_def)
qed





lemma verify_data_counts:
  assumes "\<forall>k<5. faults w (tick w + k) = None"
  shows "verify_data w =
     (Inr (),
      w\<lparr>tick := tick w + 6,
        csv_files := (csv_files w)(PIPELINE_LOG \<mapsto>
          log_rows w @
          [log_entry (clock w (tick w + 5)) ''PIPELINE'' ''VERIFICATION'' 0
             (\<Sum>t\<leftarrow>verified_tables. int (length (tables w t))) ''SUCCESS'']),
        stdout := stdout w @
          Info ''[5/5] Verifying data load...'' #
          map (\<lambda>t. TableCount (0 < length (tables w t)) t (int (length (tables w t)))) verified_tables @
          [TotalRows (\<Sum>t\<leftarrow>verified_tables. int (length (tables w t))),
           Logged ''PIPELINE'' ''VERIFICATION'' 0
             (\<Sum>t\<leftarrow>verified_tables. int (length (tables w t)))]\<rparr>)"
proof -
  have f: "faults w (tick w) = None" "faults w (Suc (tick w)) = None"
    "faults w (Suc (Suc (tick w))) = None" "faults w (Suc (Suc (Suc (tick w)))) = None"
    "faults w (Suc (Suc (Suc (Suc (tick w))))) = None"
    using assms [rule_format, of 0] assms [rule_format, of 1] assms [rule_format, of 2]
      assms [rule_format, of 3] assms [rule_format, of 4]
    by (simp_all add: eval_nat_numeral)
  show ?thesis
    by (simp add: verify_data_def verified_tables_def then_io_def bind_io_def catch_io_def
        print_def select_count_def execute_def return_io_def log_pipeline_default f
        log_rows_def eval_nat_numeral add.assoc)
qed

section \<open>Properties of the loader\<close>

lemma with_snd: "fst x = a \<Longrightarrow> x = (a, snd x)"
  by (cases x) simp













section \<open>The loader when nothing fails\<close>

lemma untouched_cong: "sql_effect w' = sql_effect w \<Longrightarrow> untouched w' ts = untouched w ts"
  by (simp add: untouched_def)

lemma held_reflp: "reflp (held ts)"
  by (rule reflpI) (simp add: held_def)

lemma held_transp: "transp (held ts)"
proof (rule transpI)
  fix a b c
  assume ab: "held ts a b" and bc: "held ts b c"
  have e: "sql_effect b = sql_effect a" "sql_effect c = sql_effect b"
    using ab bc by (simp_all add: held_def)
  have "\<forall>t\<in>set ts. tables c t = tables a t" if u: "untouched a ts"
  proof -
    have "untouched b ts" using u untouched_cong [OF e(1)] by simp
    with ab bc u show ?thesis by (simp add: held_def)
  qed
  with e show "held ts a c" by (simp add: held_def)
qed

lemma held_same:
  "(\<And>w. tables (snd (m w)) = tables w \<and> sql_effect (snd (m w)) = sql_effect w) \<Longrightarrow>
   keeps (held ts) m"
  by (simp add: keeps_def held_def)

lemmas held_return = keeps_gen_return [OF held_reflp]
lemmas held_raise = keeps_gen_raise [OF held_reflp]
lemmas held_bind = keeps_gen_bind [OF held_transp]
lemmas held_then = keeps_gen_then [OF held_transp]
lemmas held_catch = keeps_gen_catch [OF held_transp]
lemmas held_iter = keeps_gen_iter [OF held_reflp held_transp]

lemma held_print: "keeps (held ts) (print m)"
  by (rule held_same) (simp add: print_def)

lemma held_now: "keeps (held ts) now"
  by (rule held_same) (simp add: now_def)

lemma held_read_sql: "keeps (held ts) (read_sql p)"
  by (rule held_same) (simp add: read_sql_def split: option.splits)

lemma held_log_pipeline: "keeps (held ts) (log_pipeline feature operation l c None)"
  by (rule held_same) (simp add: log_pipeline_default)

lemma held_execute_sql: "keeps (held ts) (execute (Sql s))"
  by (simp add: keeps_def held_def execute_def untouched_def split: option.splits)

lemma held_run_query: "keeps (held ts) (run_query s)"
  unfolding run_query_def Let_def
  by (auto intro!: held_then held_catch held_bind held_now held_execute_sql held_print
      held_log_pipeline held_return)

lemma held_create_analytics: "keeps (held ts) create_analytics"
  unfolding create_analytics_def
  by (intro held_then held_catch held_bind held_iter held_print held_read_sql
      held_run_query held_raise)

text \<open>The stages when no driver call fails.\<close>

lemma iter_io_append:
  "iter_io f (xs @ ys) w =
     (case iter_io f xs w of (Inl e, w') \<Rightarrow> (Inl e, w') | (Inr u, w') \<Rightarrow> iter_io f ys w')"
proof (induction xs arbitrary: w)
  case Nil
  show ?case by (simp add: return_io_def)
next
  case (Cons x xs)
  show ?case
    by (cases "f x w") (auto simp: then_io_def bind_io_def Cons.IH split: sum.splits)
qed

lemma isna_keep: "map (map (\<lambda>v. if isna v then None else v)) xs = xs"
proof -
  have "(\<lambda>v :: cell option. if isna v then None else v) = (\<lambda>v. v)"
    by (auto simp: isna_def)
  then show ?thesis by simp
qed

lemma insert_batch_ok:
  "faults w (tick w) = None \<Longrightarrow>
   insert_batch t cols rows b i w =
     (Inr (), w\<lparr>tick := Suc (tick w), tables := (tables w)(t := tables w t @ take b (drop i rows))\<rparr>)"
  by (simp add: insert_batch_def Let_def execute_def isna_keep)

lemma insert_batches:
  assumes nf: "\<forall>k. faults w k = None"
  shows "iter_io (insert_batch t cols rows b) (map (\<lambda>k. k * b) [0..<m]) w =
     (Inr (), w\<lparr>tick := tick w + m, tables := (tables w)(t := tables w t @ take (m * b) rows)\<rparr>)"
proof (induction m)
  case 0
  show ?case by (simp add: return_io_def)
next
  case (Suc m)
  let ?w = "w\<lparr>tick := tick w + m, tables := (tables w)(t := tables w t @ take (m * b) rows)\<rparr>"
  have f: "faults ?w (tick ?w) = None" using nf by simp
  have "take (Suc m * b) rows = take (m * b + b) rows"
    by (simp add: add.commute)
  also have "\<dots> = take (m * b) rows @ take b (drop (m * b) rows)"
    by (rule take_add)
  finally have t: "take (m * b) rows @ take b (drop (m * b) rows) = take (Suc m * b) rows"
    by simp
  have one: "iter_io (insert_batch t cols rows b) [m * b] v =
      insert_batch t cols rows b (m * b) v" for v
    by (cases "insert_batch t cols rows b (m * b) v")
      (auto simp: then_io_def bind_io_def return_io_def split: sum.splits)
  have "iter_io (insert_batch t cols rows b) (map (\<lambda>k. k * b) [0..<Suc m]) w =
      (case iter_io (insert_batch t cols rows b) (map (\<lambda>k. k * b) [0..<m]) w of
         (Inl e, w') \<Rightarrow> (Inl e, w')
       | (Inr u, w') \<Rightarrow> iter_io (insert_batch t cols rows b) [m * b] w')"
    by (simp add: iter_io_append)
  also have "\<dots> = insert_batch t cols rows b (m * b) ?w"
    unfolding Suc one by simp
  also have "\<dots> = (Inr (), ?w\<lparr>tick := Suc (tick ?w),
      tables := (tables ?w)(t := tables ?w t @ take b (drop (m * b) rows))\<rparr>)"
    by (rule insert_batch_ok [OF f])
  also have "\<dots> = (Inr (), w\<lparr>tick := tick w + Suc m,
      tables := (tables w)(t := tables w t @ take (Suc m * b) rows)\<rparr>)"
    using t by simp
  finally show ?case .
qed

lemma batches_cover: "n \<le> (n + 100 - 1) div 100 * 100" for n :: nat
proof -
  have "(n + 99) div 100 * 100 + (n + 99) mod 100 = n + 99"
    by (rule div_mult_mod_eq)
  moreover have "(n + 99) mod 100 < 100"
    by simp
  ultimately show ?thesis by simp
qed

lemma load_table_loads:
  assumes nf: "\<forall>k. faults w k = None" and present: "csv_files w f = Some (h # rows)"
  defines "m \<equiv> (length rows + 100 - 1) div 100"
  defines "l \<equiv> trunc ((clock w (tick w + m + 2) - clock w (tick w)) * 1000)"
  shows "load_table (f, t) w =
     (Inr (),
      w\<lparr>tick := tick w + m + 4,
        tables := (tables w)(t := rows),
        csv_files := (csv_files w)(PIPELINE_LOG \<mapsto>
          log_rows w @
          [log_entry (clock w (tick w + m + 3)) t ''DATA_LOAD'' l (int (length rows)) ''SUCCESS'']),
        stdout := stdout w @
          [Logged t ''DATA_LOAD'' l (int (length rows)), Loaded t (length rows) l]\<rparr>)"
proof -
  let ?w2 = "w\<lparr>tick := Suc (Suc (tick w)), tables := (tables w)(t := [])\<rparr>"
  have nf2: "\<forall>k. faults ?w2 k = None" using nf by simp
  have all: "take (m * 100) rows = rows"
    using batches_cover [of "length rows"] by (simp add: m_def)
  have batches: "iter_io (insert_batch t h rows 100) (batch_starts (length rows) 100) ?w2 =
      (Inr (), ?w2\<lparr>tick := tick ?w2 + m, tables := (tables ?w2)(t := tables ?w2 t @ rows)\<rparr>)"
    using insert_batches [OF nf2, of t h rows 100 m] all
    by (simp add: batch_starts_def m_def)
  show ?thesis
    using nf present
    by (simp add: load_table_def bind_io_def then_io_def now_def read_csv_def execute_def
        Let_def batches log_pipeline_default print_def log_rows_def l_def
        numeral_2_eq_2 numeral_3_eq_3 eval_nat_numeral(2) [of "Num.Bit0 Num.One"])
qed

lemma load_table_effect:
  assumes nf: "\<forall>k. faults w k = None" and present: "csv_files w f = Some (h # rows)"
  shows "\<exists>w1 ts l. load_table (f, t) w = (Inr (), w1) \<and> faults w1 = faults w \<and>
     (\<forall>p. p \<noteq> PIPELINE_LOG \<longrightarrow> csv_files w1 p = csv_files w p) \<and>
     tables w1 = (tables w)(t := rows) \<and>
     log_rows w1 =
       log_rows w @ [log_entry ts t ''DATA_LOAD'' l (int (length rows)) ''SUCCESS'']"
proof -
  note eq = load_table_loads [OF nf present, of t]
  let ?w1 = "snd (load_table (f, t) w)"
  have 1: "load_table (f, t) w = (Inr (), ?w1)" by (simp add: eq)
  have 2: "faults ?w1 = faults w" by (simp add: eq)
  have 3: "\<forall>p. p \<noteq> PIPELINE_LOG \<longrightarrow> csv_files ?w1 p = csv_files w p"
    by (simp add: eq)
  have 4: "tables ?w1 = (tables w)(t := rows)" by (simp add: eq)
  have 5: "\<exists>ts l. log_rows ?w1 =
       log_rows w @ [log_entry ts t ''DATA_LOAD'' l (int (length rows)) ''SUCCESS'']"
    unfolding eq by (simp add: log_rows_def) blast
  from 5 obtain ts l where 6: "log_rows ?w1 =
       log_rows w @ [log_entry ts t ''DATA_LOAD'' l (int (length rows)) ''SUCCESS'']"
    by blast
  show ?thesis
    by (rule exI [of _ ?w1], rule exI [of _ ts], rule exI [of _ l]) (intro conjI 1 2 3 4 6)
qed

lemma load_tables:
  assumes nf: "\<forall>k. faults w k = None"
    and files: "\<forall>(f, t)\<in>set tm. f \<noteq> PIPELINE_LOG \<and> (\<exists>h rows. csv_files w f = Some (h # rows))"
    and dist: "distinct (map snd tm)"
  shows "\<exists>w' new. iter_io load_table tm w = (Inr (), w') \<and>
     log_rows w' = log_rows w @ new \<and> length new = length tm \<and>
     (\<forall>r\<in>set new. \<exists>ts t l c. r = log_entry ts t ''DATA_LOAD'' l c ''SUCCESS'') \<and>
     (\<forall>(f, t)\<in>set tm. tables w' t = tl (the (csv_files w f))) \<and>
     (\<forall>t. t \<notin> snd ` set tm \<longrightarrow> tables w' t = tables w t)"
  using assms
proof (induction tm arbitrary: w)
  case Nil
  show ?case by (simp add: return_io_def)
next
  case (Cons x tm)
  obtain f t where x: "x = (f, t)" by (cases x)
  from Cons.prems(2) x obtain h rows where notlog: "f \<noteq> PIPELINE_LOG"
    and present: "csv_files w f = Some (h # rows)"
    by auto
  from load_table_effect [OF Cons.prems(1) present, of t]
  obtain w1 ts l where run: "load_table (f, t) w = (Inr (), w1)"
    and f1: "faults w1 = faults w"
    and c1: "\<forall>p. p \<noteq> PIPELINE_LOG \<longrightarrow> csv_files w1 p = csv_files w p"
    and t1: "tables w1 = (tables w)(t := rows)"
    and l1: "log_rows w1 =
       log_rows w @ [log_entry ts t ''DATA_LOAD'' l (int (length rows)) ''SUCCESS'']"
    by blast
  have nf1: "\<forall>k. faults w1 k = None" using Cons.prems(1) f1 by simp
  have files1: "\<forall>(f, t)\<in>set tm. f \<noteq> PIPELINE_LOG \<and>
      (\<exists>h rows. csv_files w1 f = Some (h # rows))"
    using Cons.prems(2) c1 by auto
  have dist1: "distinct (map snd tm)" and fresh: "t \<notin> snd ` set tm"
    using Cons.prems(3) x by auto
  from Cons.IH [OF nf1 files1 dist1]
  obtain w' new where loop: "iter_io load_table tm w1 = (Inr (), w')"
    and l': "log_rows w' = log_rows w1 @ new" and n': "length new = length tm"
    and e': "\<forall>r\<in>set new. \<exists>ts t l c. r = log_entry ts t ''DATA_LOAD'' l c ''SUCCESS''"
    and tb: "\<forall>(f, t)\<in>set tm. tables w' t = tl (the (csv_files w1 f))"
    and other: "\<forall>t. t \<notin> snd ` set tm \<longrightarrow> tables w' t = tables w1 t"
    by blast
  let ?e = "log_entry ts t ''DATA_LOAD'' l (int (length rows)) ''SUCCESS''"
  have a: "iter_io load_table (x # tm) w = (Inr (), w')"
    using run loop by (simp add: x then_io_def bind_io_def)
  have b: "log_rows w' = log_rows w @ (?e # new)" using l' l1 by simp
  have c: "length (?e # new) = length (x # tm)" using n' by simp
  have d: "\<forall>r\<in>set (?e # new). \<exists>ts t l c. r = log_entry ts t ''DATA_LOAD'' l c ''SUCCESS''"
    using e' by auto
  have "tables w' t = tables w1 t" using other fresh by blast
  hence hd: "tables w' t = tl (the (csv_files w f))"
    using t1 present by simp
  have tl: "\<forall>(f, t)\<in>set tm. tables w' t = tl (the (csv_files w f))"
  proof (intro ballI, clarify)
    fix a b assume m: "(a, b) \<in> set tm"
    from tb m have 1: "tables w' b = tl (the (csv_files w1 a))" by blast
    from files1 m have "a \<noteq> PIPELINE_LOG" by blast
    with c1 have "csv_files w1 a = csv_files w a" by blast
    with 1 show "tables w' b = tl (the (csv_files w a))" by simp
  qed
  have e: "\<forall>(f, t)\<in>set (x # tm). tables w' t = tl (the (csv_files w f))"
    using hd tl by (simp add: x)
  have g: "\<forall>u. u \<notin> snd ` set (x # tm) \<longrightarrow> tables w' u = tables w u"
    using other t1 by (auto simp: x)
  show ?case
    using a b c d e g by blast
qed



lemma operation_count_append:
  "operation_count operation (xs @ ys) =
   operation_count operation xs + operation_count operation ys"
  by (simp add: operation_count_def)

lemma operation_count_entries:
  assumes "\<forall>r\<in>set new. \<exists>ts f l c. r = log_entry ts f operation l c ''SUCCESS''"
  shows "operation_count operation new = length new"
proof -
  have "filter (\<lambda>r. length r = 6 \<and> r ! 2 = Some (Str operation)) new = new"
    using assms by (intro filter_True) (auto simp: log_entry_def)
  thus ?thesis by (simp add: operation_count_def)
qed

lemma iter_io_returns:
  assumes step: "\<And>x w. Q w \<Longrightarrow> fst (f x w) = Inr () \<and> Q (snd (f x w))" and start: "Q w"
  shows "fst (iter_io f xs w) = Inr () \<and> Q (snd (iter_io f xs w))"
  using start
proof (induction xs arbitrary: w)
  case Nil
  thus ?case by (simp add: return_io_def)
next
  case (Cons x xs)
  obtain w' where r: "f x w = (Inr (), w')" and q: "Q w'"
    using step [OF Cons.prems, of x] by (cases "f x w") auto
  show ?case using Cons.IH [OF q] r by (simp add: then_io_def bind_io_def)
qed

lemma run_statement_ok:
  assumes "(\<forall>k. faults w k = None) \<and> sql_files w = fs"
  shows "fst (run_statement s w) = Inr () \<and>
     ((\<forall>k. faults (snd (run_statement s w)) k = None) \<and> sql_files (snd (run_statement s w)) = fs)"
  using assms by (simp add: run_statement_def execute_def return_io_def)

lemma setup_database_returns:
  assumes nf: "\<forall>k. faults w k = None"
    and one: "sql_files w ''sql/01_setup.sql'' \<noteq> None"
    and two: "sql_files w ''sql/02_schema.sql'' \<noteq> None"
  shows "fst (setup_database w) = Inr ()"
proof -
  from one two obtain s1 s2 where s1: "sql_files w ''sql/01_setup.sql'' = Some s1"
    and s2: "sql_files w ''sql/02_schema.sql'' = Some s2"
    by auto
  let ?Q = "\<lambda>w'. (\<forall>k. faults w' k = None) \<and> sql_files w' = sql_files w"
  let ?w0 = "w\<lparr>stdout := stdout w @ [Info ''[2/5] Setting up Snowflake environment...'']\<rparr>"
  have q0: "?Q ?w0" using nf by simp
  obtain w1 where i1: "iter_io run_statement (split_on (CHR '';'') s1) ?w0 = (Inr (), w1)"
    and q1: "?Q w1"
    using iter_io_returns [of ?Q run_statement ?w0 "split_on (CHR '';'') s1",
        OF run_statement_ok q0]
    by (cases "iter_io run_statement (split_on (CHR '';'') s1) ?w0") auto
  let ?w1 = "w1\<lparr>stdout := stdout w1 @ [Info ''Database and warehouse configured'']\<rparr>"
  have q1': "?Q ?w1" using q1 by simp
  obtain w2 where i2: "iter_io run_statement (split_on (CHR '';'') s2) ?w1 = (Inr (), w2)"
    using iter_io_returns [of ?Q run_statement ?w1 "split_on (CHR '';'') s2",
        OF run_statement_ok q1']
    by (cases "iter_io run_statement (split_on (CHR '';'') s2) ?w1") auto
  show ?thesis
    using s1 s2 i1 i2 q1
    by (simp add: setup_database_def then_io_def bind_io_def catch_io_def print_def
        read_sql_def)
qed

lemma growsD:
  assumes "keeps grows m"
  shows "\<exists>new. log_rows (snd (m w)) = log_rows w @ new \<and>
      (\<forall>r\<in>set new. \<exists>ts f operation l c. r = log_entry ts f operation l c ''SUCCESS'')"
    and "csv_files w PIPELINE_LOG \<noteq> None \<Longrightarrow> csv_files (snd (m w)) PIPELINE_LOG \<noteq> None"
    and "p \<noteq> PIPELINE_LOG \<Longrightarrow> csv_files (snd (m w)) p = csv_files w p"
    and "sql_files (snd (m w)) = sql_files w"
    and "faults (snd (m w)) = faults w"
    and "sql_effect (snd (m w)) = sql_effect w"
  using assms [unfolded keeps_def grows_def, rule_format, of w] by blast+

lemma started_facts:
  "log_rows (started w) = log_start w"
  "csv_files (started w) PIPELINE_LOG \<noteq> None"
  "p \<noteq> PIPELINE_LOG \<Longrightarrow> csv_files (started w) p = csv_files w p"
  "sql_files (started w) = sql_files w"
  "faults (started w) = faults w"
  "sql_effect (started w) = sql_effect w"
  by (simp_all add: started_def then_io_def bind_io_def print_def init_pipeline_log_def
      log_start_def log_rows_def)

lemma connect_snowflake_ok:
  "faults w (tick w) = None \<Longrightarrow>
   connect_snowflake w =
     (Inr (), w\<lparr>tick := Suc (tick w),
                stdout := stdout w @ [Info ''[1/5] Connecting to Snowflake...'', Connected]\<rparr>)"
  by (simp add: connect_snowflake_def then_io_def bind_io_def print_def)

lemma ingest_data_loads:
  assumes nf: "\<forall>k. faults w k = None"
    and files: "\<forall>p\<in>set CSV_FILES. \<exists>h rows. csv_files w p = Some (h # rows)"
  shows "\<exists>w' new. ingest_data w = (Inr (), w') \<and>
     log_rows w' = log_rows w @ new \<and> length new = 5 \<and>
     (\<forall>r\<in>set new. \<exists>ts t l c. r = log_entry ts t ''DATA_LOAD'' l c ''SUCCESS'') \<and>
     (\<forall>(f, t)\<in>set table_mapping. tables w' t = tl (the (csv_files w f)))"
proof -
  let ?w0 = "w\<lparr>stdout := stdout w @ [Info ''[3/5] Uploading and ingesting data...'']\<rparr>"
  have nf0: "\<forall>k. faults ?w0 k = None" using nf by simp
  have files0: "\<forall>(f, t)\<in>set table_mapping. f \<noteq> PIPELINE_LOG \<and>
      (\<exists>h rows. csv_files ?w0 f = Some (h # rows))"
    using files by (simp add: table_mapping_def CSV_FILES_def PIPELINE_LOG_def)
  have dist: "distinct (map snd table_mapping)" by (simp add: table_mapping_def)
  from load_tables [OF nf0 files0 dist]
  obtain w' new where loop: "iter_io load_table table_mapping ?w0 = (Inr (), w')"
    and l: "log_rows w' = log_rows ?w0 @ new" and n: "length new = length table_mapping"
    and e: "\<forall>r\<in>set new. \<exists>ts t l c. r = log_entry ts t ''DATA_LOAD'' l c ''SUCCESS''"
    and tb: "\<forall>(f, t)\<in>set table_mapping. tables w' t = tl (the (csv_files ?w0 f))"
    by blast
  have a: "ingest_data w = (Inr (), w')"
    using loop by (simp add: ingest_data_def then_io_def bind_io_def catch_io_def print_def)
  have b: "log_rows w' = log_rows w @ new" using l by (simp add: log_rows_def)
  have c: "length new = 5" using n by (simp add: table_mapping_def)
  have d: "\<forall>(f, t)\<in>set table_mapping. tables w' t = tl (the (csv_files w f))"
    using tb by simp
  show ?thesis using a b c e d by blast
qed



lemma csv_files_not_log: "p \<in> set CSV_FILES \<Longrightarrow> p \<noteq> PIPELINE_LOG"
  by (auto simp: CSV_FILES_def PIPELINE_LOG_def)

lemma table_mapping_files: "(f, t) \<in> set table_mapping \<Longrightarrow> f \<in> set CSV_FILES"
  by (auto simp: CSV_FILES_def table_mapping_def)

lemma table_mapping_tables: "(f, t) \<in> set table_mapping \<Longrightarrow> t \<in> set verified_tables"
  by (auto simp: verified_tables_def table_mapping_def)

lemma healthy_run:
  assumes h: "healthy w"
  shows "\<exists>w' mid ts. main w = (0, w') \<and> faults w' = faults w \<and>
     csv_files w' PIPELINE_LOG \<noteq> None \<and>
     log_rows w' = log_start w @ mid @
       [log_entry ts ''PIPELINE'' ''VERIFICATION'' 0
          (\<Sum>t\<leftarrow>verified_tables. int (length (tables w' t))) ''SUCCESS''] \<and>
     (\<forall>r\<in>set mid. \<exists>ts f operation l c. r = log_entry ts f operation l c ''SUCCESS'') \<and>
     5 \<le> operation_count ''DATA_LOAD'' mid \<and>
     (untouched w verified_tables \<longrightarrow>
        (\<forall>(f, t)\<in>set table_mapping. tables w' t = tl (the (csv_files w f))))"
proof -
  from h have nf: "\<forall>k. faults w k = None"
    and one: "sql_files w ''sql/01_setup.sql'' \<noteq> None"
    and two: "sql_files w ''sql/02_schema.sql'' \<noteq> None"
    and four: "sql_files w ''sql/04_queries.sql'' \<noteq> None"
    and files: "\<forall>p\<in>set CSV_FILES. \<exists>h rows. csv_files w p = Some (h # rows)"
    by (simp_all add: healthy_def SQL_FILES_def)
  note S = started_facts [where w = w]
  text \<open>connecting\<close>
  define w1 where "w1 = (started w)\<lparr>tick := Suc (tick (started w)),
      stdout := stdout (started w) @ [Info ''[1/5] Connecting to Snowflake...'', Connected]\<rparr>"
  have c: "connect_snowflake (started w) = (Inr (), w1)"
    unfolding w1_def by (rule connect_snowflake_ok) (simp add: S nf)
  have w1: "faults w1 = faults w" "sql_files w1 = sql_files w" "sql_effect w1 = sql_effect w"
    "csv_files w1 = csv_files (started w)" "log_rows w1 = log_start w"
    by (simp_all add: w1_def S log_rows_def [of "_\<lparr>tick := _, stdout := _\<rparr>"]
        S(1) [unfolded log_rows_def])
  text \<open>setting up\<close>
  define w2 where "w2 = snd (setup_database w1)"
  have "fst (setup_database w1) = Inr ()"
    by (rule setup_database_returns) (simp_all add: w1 nf one two)
  hence s: "setup_database w1 = (Inr (), w2)"
    unfolding w2_def by (cases "setup_database w1") simp
  note G2 = growsD [OF keeps_setup_database, where w = w1, folded w2_def]
  from G2(1) obtain pre where l2: "log_rows w2 = log_start w @ pre"
    and e2: "\<forall>r\<in>set pre. \<exists>ts f operation l c. r = log_entry ts f operation l c ''SUCCESS''"
    unfolding w1(5) by blast
  have nf2: "\<forall>k. faults w2 k = None" using G2(5) w1(1) nf by simp
  have same2: "csv_files w2 p = csv_files w p" if "p \<in> set CSV_FILES" for p
    using G2(3) [OF csv_files_not_log [OF that]] S(3) [OF csv_files_not_log [OF that]] w1(4)
    by simp
  have files2: "\<forall>p\<in>set CSV_FILES. \<exists>h rows. csv_files w2 p = Some (h # rows)"
    using files same2 by simp
  text \<open>loading\<close>
  from ingest_data_loads [OF nf2 files2]
  obtain w3 loads where i: "ingest_data w2 = (Inr (), w3)"
    and l3: "log_rows w3 = log_rows w2 @ loads" and n3: "length loads = 5"
    and e3: "\<forall>r\<in>set loads. \<exists>ts t l c. r = log_entry ts t ''DATA_LOAD'' l c ''SUCCESS''"
    and t3: "\<forall>(f, t)\<in>set table_mapping. tables w3 t = tl (the (csv_files w2 f))"
    by blast
  have w3: "w3 = snd (ingest_data w2)" using i by simp
  note G3 = growsD [OF keeps_ingest_data, where w = w2, folded w3]
  have nf3: "\<forall>k. faults w3 k = None" using G3(5) nf2 by simp
  have four3: "sql_files w3 ''sql/04_queries.sql'' \<noteq> None"
    using G3(4) G2(4) w1(2) four by simp
  have eff3: "sql_effect w3 = sql_effect w" using G3(6) G2(6) w1(3) by simp
  text \<open>the analytics\<close>
  define w4 where "w4 = snd (create_analytics w3)"
  have "fst (create_analytics w3) = Inr ()"
    by (rule create_analytics_returns [OF four3])
  hence a: "create_analytics w3 = (Inr (), w4)"
    unfolding w4_def by (cases "create_analytics w3") simp
  note G4 = growsD [OF keeps_create_analytics, where w = w3, folded w4_def]
  from G4(1) obtain more where l4: "log_rows w4 = log_rows w3 @ more"
    and e4: "\<forall>r\<in>set more. \<exists>ts f operation l c. r = log_entry ts f operation l c ''SUCCESS''"
    by blast
  have nf4: "\<forall>k. faults w4 k = None" using G4(5) nf3 by simp
  have H4: "held verified_tables w3 w4"
    unfolding w4_def by (rule held_create_analytics [unfolded keeps_def, rule_format])
  text \<open>the verification\<close>
  define total where "total = (\<Sum>t\<leftarrow>verified_tables. int (length (tables w4 t)))"
  define w5 where "w5 = snd (verify_data w4)"
  have nf4': "\<forall>k<5. faults w4 (tick w4 + k) = None" using nf4 by simp
  note V = verify_data_counts [OF nf4', folded total_def]
  have v: "verify_data w4 = (Inr (), w5)" unfolding w5_def by (simp add: V)
  have w5: "faults w5 = faults w4" "tables w5 = tables w4"
    "csv_files w5 PIPELINE_LOG \<noteq> None"
    "log_rows w5 = log_rows w4 @
       [log_entry (clock w4 (tick w4 + 5)) ''PIPELINE'' ''VERIFICATION'' 0 total ''SUCCESS'']"
    unfolding w5_def V by (simp_all add: log_rows_def)
  text \<open>the whole run\<close>
  define w' where
    "w' = w5\<lparr>stdout := stdout w5 @
       [Info ''Pipeline complete! Check pipeline_logs.csv for details.'']\<rparr>"
  have run: "main w = (0, w')"
    using c s i a v
    by (simp add: main_started pipeline_def load_stages_def then_io_def bind_io_def print_def
        w'_def)
  have f': "faults w' = faults w" using w5(1) G4(5) G3(5) G2(5) w1(1) by (simp add: w'_def)
  have there: "csv_files w' PIPELINE_LOG \<noteq> None" using w5(3) by (simp add: w'_def)
  have tables': "tables w' = tables w4" using w5(2) by (simp add: w'_def)
  have "log_rows w' = log_rows w5" by (simp add: w'_def log_rows_def)
  hence log': "log_rows w' = log_start w @ (pre @ loads @ more) @
       [log_entry (clock w4 (tick w4 + 5)) ''PIPELINE'' ''VERIFICATION'' 0
          (\<Sum>t\<leftarrow>verified_tables. int (length (tables w' t))) ''SUCCESS'']"
    using w5(4) l4 l3 l2 by (simp add: tables' total_def)
  have entries: "\<forall>r\<in>set (pre @ loads @ more).
      \<exists>ts f operation l c. r = log_entry ts f operation l c ''SUCCESS''"
  proof -
    have "\<forall>r\<in>set loads. \<exists>ts f operation l c. r = log_entry ts f operation l c ''SUCCESS''"
      using e3 by blast
    with e2 e4 show ?thesis by (simp add: ball_Un)
  qed
  have "operation_count ''DATA_LOAD'' loads = length loads"
    by (rule operation_count_entries) (rule e3)
  hence count: "5 \<le> operation_count ''DATA_LOAD'' (pre @ loads @ more)"
    using n3 by (simp add: operation_count_append)
  have loaded: "\<forall>(f, t)\<in>set table_mapping. tables w' t = tl (the (csv_files w f))"
    if u: "untouched w verified_tables"
  proof (intro ballI, clarify)
    fix f t assume m: "(f, t) \<in> set table_mapping"
    have "untouched w3 verified_tables" using u untouched_cong [OF eff3] by simp
    with H4 have "\<forall>t\<in>set verified_tables. tables w4 t = tables w3 t"
      by (simp add: held_def)
    hence "tables w4 t = tables w3 t" using table_mapping_tables [OF m] by blast
    moreover have "tables w3 t = tl (the (csv_files w2 f))" using t3 m by blast
    moreover have "csv_files w2 f = csv_files w f" by (rule same2 [OF table_mapping_files [OF m]])
    ultimately show "tables w' t = tl (the (csv_files w f))" by (simp add: tables')
  qed
  show ?thesis
    using run f' there log' entries count loaded by blast
qed



section \<open>Properties of the dashboard\<close>

text \<open>
  \<^bold>\<open>C9.\<close> The two failures of the dashboard. When the connection to the warehouse fails,
  the script renders the error of the connection, the hint, and the box \<open>Not connected to
  Snowflake\<close>, and stops there: it ends as a stop, not as a crash, and the rest of the
  script, which holds every query, is not run whatever it is. \<open>execute_query\<close> never
  raises: a failure of the query is caught, rendered as one error element, and the result
  is \<open>(None, 0)\<close>; a query that succeeds gives its rows.
\<close>

theorem dashboard_failures_contained:
  "(faults w (tick w) = Some e \<longrightarrow>
      run_script (dashboard tabs) w =
        (Stopped,
         w\<lparr>tick := Suc (tick w),
           ui := ui w @
             [Title ''Cybersecurity Risk Dashboard'',
              Markdown
                ''**Real-time analysis of security vulnerabilities, incidents, and compliance**'',
              Header ''Connection'', ConnectError e,
              InfoBox ''If MFA is enabled, generate an API Key in Snowflake and set SNOWFLAKE_PRIVATE_KEY in .env'',
              ErrorBox ''Not connected to Snowflake'']\<rparr>)) \<and>
   (\<exists>r w'. execute_query c q w = (Inr r, w')) \<and>
   (fetch c q (w\<lparr>tick := Suc (tick w)\<rparr>) = (Inl e', w1) \<longrightarrow>
      execute_query c q w = (Inr (None, 0), w1\<lparr>ui := ui w1 @ [QueryError e']\<rparr>)) \<and>
   (fetch c q (w\<lparr>tick := Suc (tick w)\<rparr>) = (Inr df, w1) \<longrightarrow>
      (\<exists>latency_ms w'. execute_query c q w = (Inr (Some df, latency_ms), w')))"
proof (intro conjI impI)
  assume "faults w (tick w) = Some e"
  thus "run_script (dashboard tabs) w =
        (Stopped,
         w\<lparr>tick := Suc (tick w),
           ui := ui w @
             [Title ''Cybersecurity Risk Dashboard'',
              Markdown
                ''**Real-time analysis of security vulnerabilities, incidents, and compliance**'',
              Header ''Connection'', ConnectError e,
              InfoBox ''If MFA is enabled, generate an API Key in Snowflake and set SNOWFLAKE_PRIVATE_KEY in .env'',
              ErrorBox ''Not connected to Snowflake'']\<rparr>)"
    by (simp add: run_script_def dashboard_def then_io_def bind_io_def emit_def
        get_snowflake_connection_def stop_def raise_io_def)
next
  show "\<exists>r w'. execute_query c q w = (Inr r, w')"
  proof (cases "fetch c q (w\<lparr>tick := Suc (tick w)\<rparr>)")
    case (Pair r w1)
    thus ?thesis
      by (cases r)
        (simp_all add: execute_query_def catch_io_def bind_io_def then_io_def now_def
          return_io_def emit_def)
  qed
next
  assume "fetch c q (w\<lparr>tick := Suc (tick w)\<rparr>) = (Inl e', w1)"
  thus "execute_query c q w = (Inr (None, 0), w1\<lparr>ui := ui w1 @ [QueryError e']\<rparr>)"
    by (simp add: execute_query_def catch_io_def bind_io_def then_io_def now_def
        return_io_def emit_def)
next
  assume "fetch c q (w\<lparr>tick := Suc (tick w)\<rparr>) = (Inr df, w1)"
  thus "\<exists>latency_ms w'. execute_query c q w = (Inr (Some df, latency_ms), w')"
    by (simp add: execute_query_def catch_io_def bind_io_def then_io_def now_def
        return_io_def emit_def)
qed

text \<open>With a driver whose first call fails the script stops after the six elements, although
  the rest of the script would run a query; with a driver whose third call fails a query
  gives \<open>(None, 0)\<close> and one error element, and with a faultless driver it gives the rows.\<close>

theorem dashboard_failures_contained_witness:
  "faults (failing_at 0 sample_world) (tick (failing_at 0 sample_world)) =
     Some (DriverError ''connection reset'') \<and>
   fst (run_script
      (dashboard (\<lambda>c. bind_io (execute_query c ''SELECT COUNT(*) as cnt FROM ASSETS;'')
         (\<lambda>r. return_io ())))
      (failing_at 0 sample_world)) = Stopped \<and>
   ui (snd (run_script
      (dashboard (\<lambda>c. bind_io (execute_query c ''SELECT COUNT(*) as cnt FROM ASSETS;'')
         (\<lambda>r. return_io ())))
      (failing_at 0 sample_world))) =
     [Title ''Cybersecurity Risk Dashboard'',
      Markdown ''**Real-time analysis of security vulnerabilities, incidents, and compliance**'',
      Header ''Connection'', ConnectError (DriverError ''connection reset''),
      InfoBox ''If MFA is enabled, generate an API Key in Snowflake and set SNOWFLAKE_PRIVATE_KEY in .env'',
      ErrorBox ''Not connected to Snowflake''] \<and>
   fst (fetch (Some Conn) ''SELECT 1;'' ((failing_at 2 sample_world)\<lparr>tick := Suc 0\<rparr>)) =
     Inl (DriverError ''connection reset'') \<and>
   fst (execute_query (Some Conn) ''SELECT 1;'' (failing_at 2 sample_world)) = Inr (None, 0) \<and>
   ui (snd (execute_query (Some Conn) ''SELECT 1;'' (failing_at 2 sample_world))) =
     [QueryError (DriverError ''connection reset'')] \<and>
   fst (fetch (Some Conn) ''SELECT 1;'' (sample_world\<lparr>tick := Suc 0\<rparr>)) = Inr [] \<and>
   (\<exists>latency_ms. fst (execute_query (Some Conn) ''SELECT 1;'' sample_world) =
      Inr (Some [], latency_ms))"
proof -
  let ?e = "DriverError ''connection reset''"
  let ?tabs = "\<lambda>c. bind_io (execute_query c ''SELECT COUNT(*) as cnt FROM ASSETS;'')
         (\<lambda>r. return_io ())"
  let ?w0 = "failing_at 0 sample_world"
  have t0: "tick ?w0 = 0" by (simp add: failing_at_def sample_world_def)
  have u0: "ui ?w0 = []" by (simp add: failing_at_def sample_world_def)
  have down: "faults ?w0 (tick ?w0) = Some ?e"
    by (simp add: failing_at_def sample_world_def)
  note stopped = dashboard_failures_contained [of ?w0 ?e ?tabs, THEN conjunct1, THEN mp,
      OF down]
  have a: "fst (run_script (dashboard ?tabs) ?w0) = Stopped"
    by (rule stopped [THEN arg_cong [where f = fst], THEN trans]) (rule fst_conv)
  have b: "ui (snd (run_script (dashboard ?tabs) ?w0)) =
     [Title ''Cybersecurity Risk Dashboard'',
      Markdown ''**Real-time analysis of security vulnerabilities, incidents, and compliance**'',
      Header ''Connection'', ConnectError ?e,
      InfoBox ''If MFA is enabled, generate an API Key in Snowflake and set SNOWFLAKE_PRIVATE_KEY in .env'',
      ErrorBox ''Not connected to Snowflake'']"
    unfolding stopped by (simp add: u0)
  let ?w2 = "failing_at 2 sample_world"
  have t2: "tick ?w2 = 0" by (simp add: failing_at_def sample_world_def)
  let ?w3 = "snd (fetch (Some Conn) ''SELECT 1;'' (?w2\<lparr>tick := Suc (tick ?w2)\<rparr>))"
  have bad: "fst (fetch (Some Conn) ''SELECT 1;'' (?w2\<lparr>tick := Suc (tick ?w2)\<rparr>)) = Inl ?e"
    by (simp add: fetch_def then_io_def bind_io_def execute_def failing_at_def sample_world_def)
  have bad': "fst (fetch (Some Conn) ''SELECT 1;'' (?w2\<lparr>tick := Suc 0\<rparr>)) = Inl ?e"
    using bad by (simp add: t2)
  have u3: "ui ?w3 = []"
    by (simp add: fetch_def then_io_def bind_io_def execute_def failing_at_def sample_world_def)
  note caught = dashboard_failures_contained [of ?w2 _ _ "Some Conn" "''SELECT 1;''" ?e ?w3,
      THEN conjunct2, THEN conjunct2, THEN conjunct1, THEN mp, OF with_snd [OF bad]]
  have c: "fst (execute_query (Some Conn) ''SELECT 1;'' ?w2) = Inr (None, 0)"
    by (rule caught [THEN arg_cong [where f = fst], THEN trans]) (rule fst_conv)
  have d: "ui (snd (execute_query (Some Conn) ''SELECT 1;'' ?w2)) = [QueryError ?e]"
    unfolding caught by (simp add: u3)
  have ts: "tick sample_world = 0" by (simp add: sample_world_def)
  let ?w4 = "snd (fetch (Some Conn) ''SELECT 1;'' (sample_world\<lparr>tick := Suc (tick sample_world)\<rparr>))"
  have good: "fst (fetch (Some Conn) ''SELECT 1;''
      (sample_world\<lparr>tick := Suc (tick sample_world)\<rparr>)) = Inr []"
    by (simp add: fetch_def then_io_def bind_io_def execute_def sample_world_def)
  have good': "fst (fetch (Some Conn) ''SELECT 1;'' (sample_world\<lparr>tick := Suc 0\<rparr>)) = Inr []"
    using good by (simp add: ts)
  from dashboard_failures_contained [of sample_world _ _ "Some Conn" "''SELECT 1;''" _ ?w4 "[]",
      THEN conjunct2, THEN conjunct2, THEN conjunct2, THEN mp, OF with_snd [OF good]]
  obtain l w' where "execute_query (Some Conn) ''SELECT 1;'' sample_world = (Inr (Some [], l), w')"
    by blast
  hence f: "\<exists>latency_ms. fst (execute_query (Some Conn) ''SELECT 1;'' sample_world) =
      Inr (Some [], latency_ms)"
    by simp
  show ?thesis
    by (intro conjI) (rule down a b bad' c d good' f)+
qed



section \<open>Properties of whole runs\<close>

lemma generated_world:
  "\<exists>ds n. generate_data w =
       (Inr ds, w\<lparr>tick := n, csv_files := generated_files ds (csv_files w),
                  stdout := stdout w @ generated_output ds\<rparr>) \<and>
     dataset_ok (\<lambda>r. True) ds"
  by (rule generate_data_result) simp

lemma generated_healthy:
  assumes "\<forall>k. faults w k = None" and "\<forall>p\<in>set SQL_FILES. sql_files w p \<noteq> None"
  shows "healthy (snd (generate_data w))"
proof -
  from generated_world [of w] obtain ds n where
    "generate_data w =
       (Inr ds, w\<lparr>tick := n, csv_files := generated_files ds (csv_files w),
                  stdout := stdout w @ generated_output ds\<rparr>)"
    by blast
  thus ?thesis
    using assms by (simp add: healthy_def generated_files_def CSV_FILES_def)
qed

lemma generated_log:
  "csv_files (snd (generate_data w)) PIPELINE_LOG = csv_files w PIPELINE_LOG"
proof -
  from generated_world [of w] obtain ds n where
    "generate_data w =
       (Inr ds, w\<lparr>tick := n, csv_files := generated_files ds (csv_files w),
                  stdout := stdout w @ generated_output ds\<rparr>)"
    by blast
  thus ?thesis
    by (simp add: generated_files_def PIPELINE_LOG_def)
qed

lemma entry_not_header:
  assumes "\<forall>r\<in>set es. \<exists>ts f operation l c. r = log_entry ts f operation l c ''SUCCESS''"
  shows "header_row fieldnames \<notin> set es"
proof
  assume "header_row fieldnames \<in> set es"
  with assms obtain ts f operation l c
    where "header_row fieldnames = log_entry ts f operation l c ''SUCCESS''"
    by blast
  thus False by (simp add: header_row_def fieldnames_def log_entry_def)
qed

lemma log_extends:
  assumes inv: "(n = 0 \<and> csv_files w PIPELINE_LOG = None) \<or>
      (\<exists>es. csv_files w PIPELINE_LOG = Some (header_row fieldnames # es) \<and>
         5 * n \<le> operation_count ''DATA_LOAD'' es \<and>
         n \<le> operation_count ''VERIFICATION'' es \<and>
         (\<forall>r\<in>set es. \<exists>ts f operation l c. r = log_entry ts f operation l c ''SUCCESS''))"
    and same: "csv_files w' PIPELINE_LOG = csv_files w PIPELINE_LOG"
    and ext: "log_rows w'' = log_start w' @ new"
    and there: "csv_files w'' PIPELINE_LOG \<noteq> None"
    and entries: "\<forall>r\<in>set new. \<exists>ts f operation l c. r = log_entry ts f operation l c ''SUCCESS''"
    and loads: "5 * k \<le> operation_count ''DATA_LOAD'' new"
    and checks: "k \<le> operation_count ''VERIFICATION'' new"
  shows "\<exists>es. csv_files w'' PIPELINE_LOG = Some (header_row fieldnames # es) \<and>
         5 * (n + k) \<le> operation_count ''DATA_LOAD'' es \<and>
         n + k \<le> operation_count ''VERIFICATION'' es \<and>
         (\<forall>r\<in>set es. \<exists>ts f operation l c. r = log_entry ts f operation l c ''SUCCESS'')"
proof -
  have rows: "csv_files w'' PIPELINE_LOG = Some (log_start w' @ new)"
    using there ext by (auto simp: log_rows_def)
  from inv show ?thesis
  proof
    assume a: "n = 0 \<and> csv_files w PIPELINE_LOG = None"
    hence "log_start w' = [header_row fieldnames]" using same by (simp add: log_start_def)
    hence "csv_files w'' PIPELINE_LOG = Some (header_row fieldnames # new)"
      using rows by simp
    moreover have "5 * (n + k) \<le> operation_count ''DATA_LOAD'' new"
      "n + k \<le> operation_count ''VERIFICATION'' new"
      using a loads checks by simp_all
    ultimately show ?thesis using entries by blast
  next
    assume "\<exists>es. csv_files w PIPELINE_LOG = Some (header_row fieldnames # es) \<and>
         5 * n \<le> operation_count ''DATA_LOAD'' es \<and>
         n \<le> operation_count ''VERIFICATION'' es \<and>
         (\<forall>r\<in>set es. \<exists>ts f operation l c. r = log_entry ts f operation l c ''SUCCESS'')"
    then obtain es where f: "csv_files w PIPELINE_LOG = Some (header_row fieldnames # es)"
      and d: "5 * n \<le> operation_count ''DATA_LOAD'' es"
      and v: "n \<le> operation_count ''VERIFICATION'' es"
      and e: "\<forall>r\<in>set es. \<exists>ts f operation l c. r = log_entry ts f operation l c ''SUCCESS''"
      by blast
    have "log_start w' = header_row fieldnames # es"
      using f same by (simp add: log_start_def log_rows_def)
    hence 1: "csv_files w'' PIPELINE_LOG = Some (header_row fieldnames # (es @ new))"
      using rows by simp
    have 2: "5 * (n + k) \<le> operation_count ''DATA_LOAD'' (es @ new)"
      using d loads by (simp add: operation_count_append)
    have 3: "n + k \<le> operation_count ''VERIFICATION'' (es @ new)"
      using v checks by (simp add: operation_count_append)
    have 4: "\<forall>r\<in>set (es @ new).
        \<exists>ts f operation l c. r = log_entry ts f operation l c ''SUCCESS''"
      using e entries by (simp add: ball_Un)
    show ?thesis using 1 2 3 4 by blast
  qed
qed

lemma log_after_invariant:
  assumes "log_after n w"
  shows "(n = 0 \<and> csv_files w PIPELINE_LOG = None) \<or>
      (\<exists>es. csv_files w PIPELINE_LOG = Some (header_row fieldnames # es) \<and>
         5 * n \<le> operation_count ''DATA_LOAD'' es \<and>
         n \<le> operation_count ''VERIFICATION'' es \<and>
         (\<forall>r\<in>set es. \<exists>ts f operation l c. r = log_entry ts f operation l c ''SUCCESS''))"
  using assms
proof (induction rule: log_after.induct)
  case (fresh w)
  thus ?case by simp
next
  case (complete n w w')
  from healthy_run [OF complete.hyps(2)]
  obtain w'' mid ts where run: "main w' = (0, w'')"
    and there: "csv_files w'' PIPELINE_LOG \<noteq> None"
    and log: "log_rows w'' = log_start w' @ mid @
       [log_entry ts ''PIPELINE'' ''VERIFICATION'' 0
          (\<Sum>t\<leftarrow>verified_tables. int (length (tables w'' t))) ''SUCCESS'']"
    and entries: "\<forall>r\<in>set mid. \<exists>ts f operation l c. r = log_entry ts f operation l c ''SUCCESS''"
    and loads: "5 \<le> operation_count ''DATA_LOAD'' mid"
    by blast
  let ?v = "log_entry ts ''PIPELINE'' ''VERIFICATION'' 0
          (\<Sum>t\<leftarrow>verified_tables. int (length (tables w'' t))) ''SUCCESS''"
  have w'': "snd (main w') = w''" using run by simp
  have one: "operation_count ''VERIFICATION'' [?v] = 1"
    by (simp add: operation_count_def log_entry_def)
  have 1: "\<forall>r\<in>set (mid @ [?v]).
      \<exists>ts f operation l c. r = log_entry ts f operation l c ''SUCCESS''"
    using entries by (simp add: ball_Un) blast
  have 2: "5 * 1 \<le> operation_count ''DATA_LOAD'' (mid @ [?v])"
    using loads by (simp add: operation_count_append)
  have 3: "1 \<le> operation_count ''VERIFICATION'' (mid @ [?v])"
    using one by (simp add: operation_count_append)
  from log_extends [OF complete.IH complete.hyps(3) log there 1 2 3]
  show ?case unfolding w'' by simp
next
  case (other n w w')
  from main_grows [of w']
  obtain new where log: "log_rows (snd (main w')) = log_start w' @ new"
    and entries: "\<forall>r\<in>set new. \<exists>ts f operation l c. r = log_entry ts f operation l c ''SUCCESS''"
    and there: "csv_files (snd (main w')) PIPELINE_LOG \<noteq> None"
    by blast
  have 2: "5 * 0 \<le> operation_count ''DATA_LOAD'' new"
    and 3: "0 \<le> operation_count ''VERIFICATION'' new"
    by simp_all
  from log_extends [OF other.IH other.hyps(2) log there entries 2 3]
  show ?case by simp
qed

lemma main_appends:
  assumes "csv_files w' PIPELINE_LOG = csv_files w PIPELINE_LOG"
  shows "\<exists>new. log_rows (snd (main w')) = log_rows w @ new"
proof -
  from main_grows [of w']
  obtain new where log: "log_rows (snd (main w')) = log_start w' @ new"
    by blast
  show ?thesis
  proof (cases "csv_files w PIPELINE_LOG")
    case None
    hence "log_rows w = []" by (simp add: log_rows_def)
    thus ?thesis by simp
  next
    case (Some rows)
    hence "log_start w' = log_rows w" using assms by (simp add: log_start_def log_rows_def)
    thus ?thesis using log by simp
  qed
qed

text \<open>
  \<^bold>\<open>C4.\<close> The log after \<open>n\<close> complete runs of the loader, with any number of other runs
  of it in between, each run starting from the log the run before has left, the first one
  without a log. The columns of the header are \<open>timestamp\<close>, \<open>feature\<close>, \<open>operation\<close>,
  \<open>latency_ms\<close>, \<open>record_count\<close>, \<open>status\<close>, in this order. Unless no run has been made at
  all, the file is the header row followed by entries, each of them the six values
  \<open>log_pipeline\<close> writes in the order of the columns; the header row is not among the
  entries; at least \<open>5 * n\<close> entries have the operation \<open>DATA_LOAD\<close> and at least \<open>n\<close> the
  operation \<open>VERIFICATION\<close>. The next run, whatever else has changed, leaves the rows of
  the log as they are and appends to them.
\<close>

theorem log_after_complete_runs:
  assumes "log_after n w"
  shows "header_row fieldnames =
       [Some (Str ''timestamp''), Some (Str ''feature''), Some (Str ''operation''),
        Some (Str ''latency_ms''), Some (Str ''record_count''), Some (Str ''status'')] \<and>
     ((n = 0 \<and> csv_files w PIPELINE_LOG = None) \<or>
      (\<exists>es. csv_files w PIPELINE_LOG = Some (header_row fieldnames # es) \<and>
         header_row fieldnames \<notin> set es \<and>
         5 * n \<le> operation_count ''DATA_LOAD'' es \<and>
         n \<le> operation_count ''VERIFICATION'' es \<and>
         (\<forall>r\<in>set es. \<exists>ts f operation l c. r = log_entry ts f operation l c ''SUCCESS''))) \<and>
     (\<forall>w'. csv_files w' PIPELINE_LOG = csv_files w PIPELINE_LOG \<longrightarrow>
        (\<exists>new. log_rows (snd (main w')) = log_rows w @ new))"
proof (intro conjI allI impI)
  show "header_row fieldnames =
       [Some (Str ''timestamp''), Some (Str ''feature''), Some (Str ''operation''),
        Some (Str ''latency_ms''), Some (Str ''record_count''), Some (Str ''status'')]"
    by (simp add: header_row_def fieldnames_def)
  from log_after_invariant [OF assms] entry_not_header
  show "(n = 0 \<and> csv_files w PIPELINE_LOG = None) \<or>
      (\<exists>es. csv_files w PIPELINE_LOG = Some (header_row fieldnames # es) \<and>
         header_row fieldnames \<notin> set es \<and>
         5 * n \<le> operation_count ''DATA_LOAD'' es \<and>
         n \<le> operation_count ''VERIFICATION'' es \<and>
         (\<forall>r\<in>set es. \<exists>ts f operation l c. r = log_entry ts f operation l c ''SUCCESS''))"
    by blast
  show "\<exists>new. log_rows (snd (main w')) = log_rows w @ new"
    if "csv_files w' PIPELINE_LOG = csv_files w PIPELINE_LOG" for w'
    using that by (rule main_appends)
qed

text \<open>One complete run: the generator on the sample world, which has no log, then the
  loader.\<close>

theorem log_after_complete_runs_witness:
  "log_after (Suc 0) (snd (main (snd (generate_data sample_world)))) \<and>
   (\<exists>es. csv_files (snd (main (snd (generate_data sample_world)))) PIPELINE_LOG =
        Some (header_row fieldnames # es) \<and>
      header_row fieldnames \<notin> set es \<and>
      5 \<le> operation_count ''DATA_LOAD'' es \<and> 1 \<le> operation_count ''VERIFICATION'' es)"
proof -
  let ?w1 = "snd (generate_data sample_world)"
  have "csv_files sample_world PIPELINE_LOG = None" by (simp add: sample_world_def)
  hence start: "log_after 0 sample_world" by (rule log_after.fresh)
  have h: "healthy ?w1"
    by (rule generated_healthy) (simp_all add: sample_world_def SQL_FILES_def)
  have run: "log_after (Suc 0) (snd (main ?w1))"
    by (rule log_after.complete [OF start h generated_log])
  from log_after_complete_runs [OF run, THEN conjunct2, THEN conjunct1]
  obtain es where "csv_files (snd (main ?w1)) PIPELINE_LOG = Some (header_row fieldnames # es)"
    "header_row fieldnames \<notin> set es" "5 * Suc 0 \<le> operation_count ''DATA_LOAD'' es"
    "Suc 0 \<le> operation_count ''VERIFICATION'' es"
    by blast
  hence "\<exists>es. csv_files (snd (main ?w1)) PIPELINE_LOG = Some (header_row fieldnames # es) \<and>
      header_row fieldnames \<notin> set es \<and>
      5 \<le> operation_count ''DATA_LOAD'' es \<and> 1 \<le> operation_count ''VERIFICATION'' es"
    by (intro exI [of _ es]) simp
  with run show ?thesis by (rule conjI)
qed








lemma log_pipeline_status:
  "log_rows (snd (log_pipeline feature operation l c st w)) =
     log_rows w @
     [log_entry (clock w (tick w)) feature operation l c
        (case st of None \<Rightarrow> ''SUCCESS'' | Some s \<Rightarrow> s)]"
  by (simp add: log_pipeline_def bind_io_def now_def writerow_def fieldnames_def then_io_def
      append_row_def print_def log_entry_def log_rows_def split: option.splits)

lemma run_query_fails_log:
  "faults w (Suc (tick w)) = Some e \<Longrightarrow> csv_files (snd (run_query s w)) = csv_files w"
  by (simp add: run_query_def Let_def catch_io_def bind_io_def then_io_def now_def execute_def
      print_def return_io_def)

lemma setup_database_files:
  fixes R :: "world \<Rightarrow> world \<Rightarrow> bool"
  defines "R \<equiv> (\<lambda>w w'. csv_files w' = csv_files w)"
  shows "keeps R setup_database"
proof -
  have r: "reflp R" by (rule reflpI) (simp add: R_def)
  have t: "transp R" by (rule transpI) (simp add: R_def)
  have 1: "keeps R (print m)" for m by (simp add: keeps_def R_def print_def)
  have 2: "keeps R (read_sql p)" for p
    by (simp add: keeps_def R_def read_sql_def split: option.splits)
  have 3: "keeps R (run_statement s)" for s
    by (simp add: keeps_def R_def run_statement_def execute_def return_io_def
        split: option.splits)
  show ?thesis
    unfolding setup_database_def
    by (intro keeps_gen_then [OF t] keeps_gen_catch [OF t] keeps_gen_bind [OF t]
        keeps_gen_iter [OF r t] keeps_gen_raise [OF r] 1 2 3)
qed

lemma setup_database_no_log: "csv_files (snd (setup_database w)) = csv_files w"
  using setup_database_files by (simp add: keeps_def)

lemma connect_snowflake_no_log: "csv_files (snd (connect_snowflake w)) = csv_files w"
  by (simp add: connect_snowflake_def then_io_def bind_io_def print_def split: option.splits)

lemma main_fails_reported:
  assumes "fst (main w) = 1"
  shows "\<exists>e out. stdout (snd (main w)) = out @ [PipelineFailed e]"
proof (cases "then_io (print (Info ''CS 5542 Lab 5 - Snowflake Data Ingestion Pipeline''))
             (then_io init_pipeline_log pipeline) w")
  case (Pair r w')
  show ?thesis
  proof (cases r)
    case (Inl e)
    with Pair show ?thesis by (simp add: main_def)
  next
    case (Inr u)
    with Pair assms show ?thesis by (simp add: main_def)
  qed
qed

text \<open>
  \<^bold>\<open>C10.\<close> The status of the entries of the log. The row \<open>log_pipeline\<close> appends carries
  the status it is given, and \<open>SUCCESS\<close> when the argument is omitted, as it is at every
  call. So every row a run of \<open>main\<close> adds to the log, whether the run fails or not, is an
  entry of status \<open>SUCCESS\<close>. An operation that fails leaves the files, the log among them,
  as they are: a table whose load raises, a statement of the analytics file whose execution
  fails, a verification whose count query fails; connecting and setting up never write to
  the files. The failure of a statement of the analytics file and of the verification is
  printed, and a run that ends with exit status 1 ends its output with the failure.
\<close>

theorem log_entries_all_success:
  "(\<exists>new. log_rows (snd (main w)) = log_start w @ new \<and>
      (\<forall>r\<in>set new. \<exists>ts f operation l c. r = log_entry ts f operation l c ''SUCCESS'')) \<and>
   log_rows (snd (log_pipeline feature operation latency_ms record_count st w)) =
     log_rows w @
     [log_entry (clock w (tick w)) feature operation latency_ms record_count
        (case st of None \<Rightarrow> ''SUCCESS'' | Some s \<Rightarrow> s)] \<and>
   (load_table p w = (Inl e, w') \<longrightarrow> csv_files w' = csv_files w) \<and>
   (faults w (Suc (tick w)) = Some e \<longrightarrow>
      csv_files (snd (run_query s w)) = csv_files w \<and>
      (clean s \<noteq> [] \<longrightarrow> stdout (snd (run_query s w)) = stdout w @ [QuerySkipped e])) \<and>
   (count_tables verified_tables 0
      (w\<lparr>stdout := stdout w @ [Info ''[5/5] Verifying data load...'']\<rparr>) = (Inl e, w2) \<longrightarrow>
      verify_data w = (Inr (), w2\<lparr>stdout := stdout w2 @ [VerificationFailed e]\<rparr>) \<and>
      csv_files w2 = csv_files w) \<and>
   csv_files (snd (connect_snowflake w)) = csv_files w \<and>
   csv_files (snd (setup_database w)) = csv_files w \<and>
   (fst (main w) = 1 \<longrightarrow> (\<exists>e out. stdout (snd (main w)) = out @ [PipelineFailed e]))"
proof (intro conjI impI)
  from main_grows [of w]
  show "\<exists>new. log_rows (snd (main w)) = log_start w @ new \<and>
      (\<forall>r\<in>set new. \<exists>ts f operation l c. r = log_entry ts f operation l c ''SUCCESS'')"
    by blast
  show "log_rows (snd (log_pipeline feature operation latency_ms record_count st w)) =
     log_rows w @
     [log_entry (clock w (tick w)) feature operation latency_ms record_count
        (case st of None \<Rightarrow> ''SUCCESS'' | Some s \<Rightarrow> s)]"
    by (rule log_pipeline_status)
  show "csv_files w' = csv_files w" if "load_table p w = (Inl e, w')"
    using that by (rule load_table_raises_log)
  show "csv_files (snd (run_query s w)) = csv_files w" if "faults w (Suc (tick w)) = Some e"
    using that by (rule run_query_fails_log)
  show "stdout (snd (run_query s w)) = stdout w @ [QuerySkipped e]"
    if "faults w (Suc (tick w)) = Some e" and "clean s \<noteq> []"
    by (simp add: run_query_skips [OF that(2) that(1)])
  show "verify_data w = (Inr (), w2\<lparr>stdout := stdout w2 @ [VerificationFailed e]\<rparr>)"
    if "count_tables verified_tables 0
      (w\<lparr>stdout := stdout w @ [Info ''[5/5] Verifying data load...'']\<rparr>) = (Inl e, w2)"
    using verify_data_fails [OF that] by (rule conjunct1)
  show "csv_files w2 = csv_files w"
    if "count_tables verified_tables 0
      (w\<lparr>stdout := stdout w @ [Info ''[5/5] Verifying data load...'']\<rparr>) = (Inl e, w2)"
    using verify_data_fails [OF that] by (rule conjunct2)
  show "csv_files (snd (connect_snowflake w)) = csv_files w"
    by (rule connect_snowflake_no_log)
  show "csv_files (snd (setup_database w)) = csv_files w"
    by (rule setup_database_no_log)
  show "\<exists>e out. stdout (snd (main w)) = out @ [PipelineFailed e]" if "fst (main w) = 1"
    using that by (rule main_fails_reported)
qed

text \<open>With the file of assets alone and a driver whose second call fails, the deletion
  that starts the load of the table fails and the files are as before; with a driver whose
  second call fails a statement of the analytics file is skipped and the files are as
  before; with a driver whose first call fails the run ends with status 1 and the failure
  is the last line of its output.\<close>

theorem log_entries_all_success_witness:
  "fst (load_table (''data/csv/assets.csv'', ''ASSETS'') (failing_at 1 assets_only)) =
     Inl (DriverError ''connection reset'') \<and>
   csv_files (snd (load_table (''data/csv/assets.csv'', ''ASSETS'') (failing_at 1 assets_only))) =
     csv_files (failing_at 1 assets_only) \<and>
   faults (failing_at 1 sample_world) (Suc (tick (failing_at 1 sample_world))) =
     Some (DriverError ''connection reset'') \<and>
   csv_files (snd (run_query ''SELECT 2'' (failing_at 1 sample_world))) =
     csv_files (failing_at 1 sample_world) \<and>
   fst (main (failing_at 0 sample_world)) = 1 \<and>
   (\<exists>e out. stdout (snd (main (failing_at 0 sample_world))) = out @ [PipelineFailed e])"
proof -
  let ?e = "DriverError ''connection reset''"
  let ?p = "(''data/csv/assets.csv'', ''ASSETS'')"
  let ?w = "failing_at 1 assets_only"
  have bad: "fst (load_table ?p ?w) = Inl ?e" by code_simp
  note a = log_entries_all_success [where w = ?w and p = ?p and e = ?e
      and w' = "snd (load_table ?p ?w)",
      THEN conjunct2, THEN conjunct2, THEN conjunct1, THEN mp, OF with_snd [OF bad]]
  let ?v = "failing_at 1 sample_world"
  have down: "faults ?v (Suc (tick ?v)) = Some ?e"
    by (simp add: failing_at_def sample_world_def)
  note b = log_entries_all_success [where w = ?v and e = ?e and s = "''SELECT 2''",
      THEN conjunct2, THEN conjunct2, THEN conjunct2, THEN conjunct1, THEN mp, OF down,
      THEN conjunct1]
  let ?u = "failing_at 0 sample_world"
  have fatal: "fst (main ?u) = 1" by code_simp
  note c = log_entries_all_success [where w = ?u,
      THEN conjunct2, THEN conjunct2, THEN conjunct2, THEN conjunct2, THEN conjunct2,
      THEN conjunct2, THEN conjunct2, THEN mp, OF fatal]
  show ?thesis
    by (intro conjI) (rule bad a down b fatal c)+
qed

end
